theory Spec2Isabelle
  imports Complex_Main "HOL-Library.Sublist"
begin

section \<open>JavaScript values of the KQL abstract syntax\<close>

text \<open>
  The parser produces plain JavaScript values.  A number is modelled by the exact rational
  value of its literal.  On the safe integers, those of magnitude below \<open>2^53\<close>, the doubles
  of the runtime compute and print exactly, and the model does the same; what the runtime
  makes of any other number is taken from the environment of the compiler, see below.  A
  string is a list of 8-bit characters, so code units above 255 are outside the
  model.  An object is its own properties, an association list in insertion order,
  together with its prototype: the standard one, none, or the value that a write to the
  key \<open>__proto__\<close> installed.  A function-call expression and a named constant are what the
  source makes of them: the object \<open>{fnName, arguments}\<close> and the matched string.
\<close>

datatype jvalue =
    VNull
  | VBool bool
  | VNum rat
  | VStr string
  | VArr "jvalue list"
  | VObj "(string \<times> jvalue) list" jproto
and jproto = StdProto | NullProto | ObjProto jvalue

type_synonym jobject = "(string \<times> jvalue) list \<times> jproto"

definition digit_char :: "nat \<Rightarrow> char" where
  "digit_char n = ''0123456789'' ! (n mod 10)"

fun show_nat :: "nat \<Rightarrow> string" where
  "show_nat n = (if n < 10 then [digit_char n] else show_nat (n div 10) @ [digit_char (n mod 10)])"

declare show_nat.simps [simp del]

definition safe_integer :: "rat \<Rightarrow> bool" where
  "safe_integer v = (v = of_int \<lfloor>v\<rfloor> \<and> \<bar>v\<bar> < 2 ^ 53)"

text \<open>The text of an integer of magnitude up to \<open>2^53\<close>.\<close>

definition plain_number :: "rat \<Rightarrow> string" where
  "plain_number r = (if r < 0 then ''-'' else []) @ show_nat (nat \<lfloor>\<bar>r\<bar>\<rfloor>)"

fun joinStr :: "string \<Rightarrow> string list \<Rightarrow> string" where
  "joinStr sep [] = []"
| "joinStr sep [x] = x"
| "joinStr sep (x # y # ys) = x @ sep @ joinStr sep (y # ys)"

text \<open>The array index below \<open>n\<close> that a property key names.\<close>

definition index_key :: "string \<Rightarrow> nat \<Rightarrow> nat option" where
  "index_key k n = find (\<lambda>i. show_nat i = k) [0..<n]"

text \<open>Property read \<open>x[k]\<close> on a value that is neither \<open>null\<close> nor \<open>undefined\<close>; \<open>None\<close> is
  \<open>undefined\<close>.  An object answers with its own property, else with what its prototype chain
  holds; an array and a string answer for \<open>length\<close> and for their indices.  The methods that
  the built-in prototypes supply are not data of the program and are not reported: the
  compiler reads the fixed keys \<open>fnName\<close>, \<open>arguments\<close>, \<open>length\<close>, \<open>cast_to\<close>, \<open>id_field\<close>,
  \<open>geometry\<close> and indices, none of which names one, and where it reads another key it
  needs a string, which no method is.\<close>

fun get_prop :: "jvalue \<Rightarrow> string \<Rightarrow> jvalue option"
  and proto_prop :: "jproto \<Rightarrow> string \<Rightarrow> jvalue option" where
  "get_prop (VObj kvs p) k = (case map_of kvs k of Some v \<Rightarrow> Some v | None \<Rightarrow> proto_prop p k)"
| "get_prop (VArr xs) k =
     (if k = ''length'' then Some (VNum (of_nat (length xs)))
      else map_option (\<lambda>i. xs ! i) (index_key k (length xs)))"
| "get_prop (VStr s) k =
     (if k = ''length'' then Some (VNum (of_nat (length s)))
      else map_option (\<lambda>i. VStr [s ! i]) (index_key k (length s)))"
| "get_prop VNull k = None"
| "get_prop (VBool b) k = None"
| "get_prop (VNum r) k = None"
| "proto_prop StdProto k = None"
| "proto_prop NullProto k = None"
| "proto_prop (ObjProto v) k = get_prop v k"

text \<open>What a write to the key \<open>__proto__\<close> finds along a prototype chain: the accessor of the
  standard prototype, a data property of that name, or nothing.\<close>

datatype proto_slot = Accessor | DataProperty | Absent

fun value_slot :: "jvalue \<Rightarrow> proto_slot"
  and chain_slot :: "jproto \<Rightarrow> proto_slot" where
  "value_slot (VObj kvs p) = (if map_of kvs ''__proto__'' \<noteq> None then DataProperty else chain_slot p)"
| "value_slot (VArr xs) = Accessor"
| "value_slot VNull = Absent"
| "value_slot (VBool b) = Absent"
| "value_slot (VNum r) = Absent"
| "value_slot (VStr s) = Absent"
| "chain_slot StdProto = Accessor"
| "chain_slot NullProto = Absent"
| "chain_slot (ObjProto v) = value_slot v"

text \<open>Where a prototype chain ends: at the standard prototype, at none, or it passes through
  an array and so inherits the array methods.\<close>

datatype chain_end = EndStd | EndNull | ThroughArray

fun value_chain :: "jvalue \<Rightarrow> chain_end"
  and chain_kind :: "jproto \<Rightarrow> chain_end" where
  "value_chain (VObj kvs p) = chain_kind p"
| "value_chain (VArr xs) = ThroughArray"
| "value_chain VNull = EndNull"
| "value_chain (VBool b) = EndStd"
| "value_chain (VNum r) = EndStd"
| "value_chain (VStr s) = EndStd"
| "chain_kind StdProto = EndStd"
| "chain_kind NullProto = EndNull"
| "chain_kind (ObjProto v) = value_chain v"

text \<open>A write to an own property: an existing key keeps its place.\<close>

fun own_set :: "(string \<times> jvalue) list \<Rightarrow> string \<Rightarrow> jvalue \<Rightarrow> (string \<times> jvalue) list" where
  "own_set [] k v = [(k, v)]"
| "own_set ((k', v') # kvs) k v = (if k' = k then (k, v) # kvs else (k', v') # own_set kvs k v)"

text \<open>Property write \<open>o[k] = v\<close>.  A write to \<open>__proto__\<close> that reaches the accessor of the
  standard prototype creates no property: an object, an array or \<open>null\<close> becomes the
  prototype, any other value is ignored.\<close>

definition obj_set :: "jobject \<Rightarrow> string \<Rightarrow> jvalue \<Rightarrow> jobject" where
  "obj_set ob k v =
     (if k = ''__proto__'' \<and> map_of (fst ob) ''__proto__'' = None \<and> chain_slot (snd ob) = Accessor then
        (case v of
           VObj kvs p \<Rightarrow> (fst ob, ObjProto v)
         | VArr xs \<Rightarrow> (fst ob, ObjProto v)
         | VNull \<Rightarrow> (fst ob, NullProto)
         | _ \<Rightarrow> ob)
      else (own_set (fst ob) k v, snd ob))"

text \<open>Property read \<open>o[k]\<close>, \<open>delete o[k]\<close> (own properties only) and \<open>k in o\<close> on an object,
  for a key that names no built-in method.\<close>

definition obj_get :: "jobject \<Rightarrow> string \<Rightarrow> jvalue option" where
  "obj_get ob k = get_prop (VObj (fst ob) (snd ob)) k"

definition obj_delete :: "jobject \<Rightarrow> string \<Rightarrow> jobject" where
  "obj_delete ob k = (filter (\<lambda>kv. fst kv \<noteq> k) (fst ob), snd ob)"

definition obj_has :: "jobject \<Rightarrow> string \<Rightarrow> bool" where
  "obj_has ob k = (obj_get ob k \<noteq> None)"

definition empty_object :: jobject where
  "empty_object = ([], StdProto)"

section \<open>The abstract syntax tree\<close>

record key_ref =
  kalias :: "string option"
  key :: string

record condition =
  left :: key_ref
  operator :: string
  right :: "jvalue"

record join_condition =
  jleft :: key_ref
  jright :: key_ref

record database_ref =
  name :: string
  dalias :: "string option"

record select_ast =
  command :: string
  database :: database_ref
  join :: "join_condition option"
  wheres :: "condition list option"
  limit :: "rat option"


section \<open>String helpers of the compiler\<close>

text \<open>\<open>toLowerCase\<close> on 8-bit characters: the letters \<open>A\<close> to \<open>Z\<close> and the accented capitals
  \<open>0xC0\<close> to \<open>0xDE\<close> (the multiplication sign \<open>0xD7\<close> apart) move up by 32.\<close>

definition lower_char :: "char \<Rightarrow> char" where
  "lower_char c =
     (let n = (of_char c :: nat)
      in if (65 \<le> n \<and> n \<le> 90) \<or> (192 \<le> n \<and> n \<le> 222 \<and> n \<noteq> 215) then char_of (n + 32) else c)"

definition toLowerCase :: "string \<Rightarrow> string" where
  "toLowerCase s = map lower_char s"

text \<open>\<open>toUpperCase\<close> on a string of ASCII characters.\<close>

definition upper_ascii :: "string \<Rightarrow> string" where
  "upper_ascii s =
     map (\<lambda>c. case map_of (zip ''abcdefghijklmnopqrstuvwxyz'' ''ABCDEFGHIJKLMNOPQRSTUVWXYZ'') c of
                 None \<Rightarrow> c | Some d \<Rightarrow> d) s"

definition is_ascii :: "string \<Rightarrow> bool" where
  "is_ascii s = (\<forall>c \<in> set s. (of_char c :: nat) < 128)"

definition is_space :: "char \<Rightarrow> bool" where
  "is_space c = (c \<in> set [CHR 0x09, CHR 0x0A, CHR 0x0B, CHR 0x0C, CHR 0x0D, CHR '' '', CHR 0xA0])"

definition trim :: "string \<Rightarrow> string" where
  "trim s = rev (dropWhile is_space (rev (dropWhile is_space s)))"

text \<open>\<open>str2Number\<close>: the decimal character codes of a string, concatenated.\<close>

definition str2Number :: "string \<Rightarrow> string" where
  "str2Number str = concat (map (\<lambda>c. show_nat (of_char c)) str)"

fun statusToNumber :: "string \<Rightarrow> nat option" where
  "statusToNumber status =
     (let s = trim (toLowerCase status)
      in if s = ''online'' then Some 1
         else if s = ''busy'' then Some 2
         else if s = ''offline'' then Some 3
         else None)"

fun orderStatusToNumber :: "string \<Rightarrow> nat option" where
  "orderStatusToNumber status =
     (let s = trim (toLowerCase status)
      in if s = ''idle'' then Some 1
         else if s = ''assigning'' then Some 2
         else if s = ''accepted'' then Some 3
         else if s = ''in_process'' then Some 4
         else if s = ''completed'' then Some 5
         else if s = ''failed'' then Some 6
         else None)"

text \<open>Assignment to the slots 0 and 1 of a JavaScript array; a hole is \<open>None\<close>.\<close>

fun set0 :: "'a option list \<Rightarrow> 'a option \<Rightarrow> 'a option list" where
  "set0 [] v = [v]"
| "set0 (x # xs) v = v # xs"

fun set1 :: "'a option list \<Rightarrow> 'a option \<Rightarrow> 'a option list" where
  "set1 [] v = [None, v]"
| "set1 [x] v = [x, v]"
| "set1 (x # y # ys) v = x # v # ys"


section \<open>Errors, the runtime, the remote calls and the process-wide cache\<close>

datatype error = TypeError | BackendError | Error string

text \<open>The first error of a sequence of evaluations, else all their results.\<close>

fun collect :: "(error + 'a) list \<Rightarrow> error + 'a list" where
  "collect [] = Inr []"
| "collect (x # xs) =
     (case x of
        Inl err \<Rightarrow> Inl err
      | Inr v \<Rightarrow> (case collect xs of Inl err \<Rightarrow> Inl err | Inr vs \<Rightarrow> Inr (v # vs)))"

text \<open>The requests \<open>parseSelect\<close> and \<open>getAdminLevel\<close> issue, in the order of the log:
  the service registry, an area lookup (its query text), the record service (its
  parameter map), the registration call (url, id field, geometry) and the spatial
  engine's query (command string, filter).\<close>

datatype call =
    GetServices
  | AdminQuery "string option"
  | MetabaseCard jobject
  | Tile38Add string "jvalue" "jvalue"
  | Tile38Query string "jvalue"

text \<open>
  What the surroundings of the compiler answer.

  The JavaScript runtime, where the model does not compute it.  For a number \<open>v\<close> that is
  no safe integer, \<open>number_string v\<close> is its text in a template literal or in \<open>Array.join\<close>,
  \<open>pred_string v\<close> the text of \<open>v - 1\<close> and \<open>number_truthy v\<close> the outcome of \<open>if (v)\<close>.  For an
  object whose prototype chain passes through an array, \<open>object_string\<close> converts it to a
  string, and \<open>object_spread\<close> and \<open>object_map\<close> give the elements that the spread syntax
  and the inherited \<open>map\<close> visit on it (a hole is \<open>None\<close>); each of them may throw.
  \<open>length_index l\<close> is the array index \<open>l + 1 - 2\<close> for a \<open>length\<close> property \<open>l\<close> that is no safe
  integer, boolean or \<open>null\<close>, if it is an index.  \<open>upper_case\<close> is \<open>toUpperCase\<close> on a string
  with characters outside ASCII.

  The collaborators: \<open>Inl\<close> is a failed request or a reply that the handler of the request
  cannot read.  The registry answers with its \<open>properties\<close> (\<open>None\<close> when there are none), an
  area lookup with \<open>data[1]?.[0]\<close>, the record service with its rows, the registration call
  with \<open>data.key\<close>.  \<open>stringify\<close> is the query-string library's serialiser.
\<close>

record env =
  number_string :: "rat \<Rightarrow> string"
  pred_string :: "rat \<Rightarrow> string"
  number_truthy :: "rat \<Rightarrow> bool"
  object_string :: "jvalue \<Rightarrow> error + string"
  length_index :: "jvalue \<Rightarrow> error + int option"
  object_spread :: "jvalue \<Rightarrow> error + jvalue option list"
  object_map :: "jvalue \<Rightarrow> error + jvalue option list"
  upper_case :: "string \<Rightarrow> string"
  services_reply :: "error + (string \<Rightarrow> jvalue option) option"
  admin_reply :: "string option \<Rightarrow> error + jvalue option"
  metabase_reply :: "jobject \<Rightarrow> error + jvalue"
  add_reply :: "string \<Rightarrow> jvalue \<Rightarrow> jvalue \<Rightarrow> error + jvalue option"
  tile38_reply :: "string \<Rightarrow> jvalue \<Rightarrow> error + unit"
  stringify :: "jobject \<Rightarrow> string"

text \<open>The text of a number, and of the number minus one.\<close>

definition number_text :: "env \<Rightarrow> rat \<Rightarrow> string" where
  "number_text e v = (if safe_integer v then plain_number v else number_string e v)"

definition pred_text :: "env \<Rightarrow> rat \<Rightarrow> string" where
  "pred_text e v = (if safe_integer v then plain_number (v - 1) else pred_string e v)"

text \<open>Conversion to a string.  An array joins its elements with a comma, \<open>null\<close> elements
  printing as the empty string.  An object has no callable \<open>toString\<close> of its own, as its
  properties are data: the conversion throws when the object or its chain holds a property
  of that name and when the chain ends without the standard prototype, and it gives
  \<open>[object Object]\<close> otherwise.\<close>

fun toStr :: "env \<Rightarrow> jvalue \<Rightarrow> error + string" where
  "toStr e VNull = Inr ''null''"
| "toStr e (VBool b) = Inr (if b then ''true'' else ''false'')"
| "toStr e (VNum r) = Inr (number_text e r)"
| "toStr e (VStr s) = Inr s"
| "toStr e (VArr xs) =
     (case collect (map (\<lambda>x. if x = VNull then Inr [] else toStr e x) xs) of
        Inl err \<Rightarrow> Inl err
      | Inr ss \<Rightarrow> Inr (joinStr '','' ss))"
| "toStr e (VObj kvs p) =
     (case chain_kind p of
        ThroughArray \<Rightarrow> object_string e (VObj kvs p)
      | EndNull \<Rightarrow> Inl TypeError
      | EndStd \<Rightarrow>
          (if get_prop (VObj kvs p) ''toString'' \<noteq> None then Inl TypeError
           else Inr ''[object Object]''))"

text \<open>Truthiness, as \<open>if (x)\<close> and \<open>!x\<close> read a value.\<close>

fun truthy :: "env \<Rightarrow> jvalue \<Rightarrow> bool" where
  "truthy e VNull = False"
| "truthy e (VBool b) = b"
| "truthy e (VNum r) = (if safe_integer r then r \<noteq> 0 else number_truthy e r)"
| "truthy e (VStr s) = (s \<noteq> [])"
| "truthy e (VArr xs) = True"
| "truthy e (VObj kvs p) = True"

definition opt_truthy :: "env \<Rightarrow> jvalue option \<Rightarrow> bool" where
  "opt_truthy e v = (case v of None \<Rightarrow> False | Some x \<Rightarrow> truthy e x)"

text \<open>An element of \<open>Array.join\<close>: \<open>undefined\<close> (\<open>None\<close>) and \<open>null\<close> print as the empty string.\<close>

fun join_elem :: "env \<Rightarrow> jvalue option \<Rightarrow> error + string" where
  "join_elem e None = Inr []"
| "join_elem e (Some VNull) = Inr []"
| "join_elem e (Some v) = toStr e v"

text \<open>A value inside a template literal; \<open>undefined\<close> prints as its name.\<close>

fun tmpl :: "env \<Rightarrow> jvalue option \<Rightarrow> error + string" where
  "tmpl e None = Inr ''undefined''"
| "tmpl e (Some v) = toStr e v"

record area_entry =
  ename :: "jvalue option"
  eid :: "jvalue option"
  egeometry :: "jvalue option"

text \<open>One level of \<open>memorizeAreas\<close>: the entries stored under their names, and the entry that
  a write under the name \<open>__proto__\<close> made the prototype of the level.\<close>

record cache_level =
  stored :: "string \<Rightarrow> area_entry option"
  inherited :: "area_entry option"

record world =
  calls :: "call list"
  admin2 :: cache_level
  admin3 :: cache_level
  admin4 :: cache_level

definition issue :: "call \<Rightarrow> world \<Rightarrow> world" where
  "issue c w = w\<lparr>calls := calls w @ [c]\<rparr>"

section \<open>Hierarchical resolution\<close>

text \<open>The names every object inherits from the standard prototype.\<close>

definition object_proto_names :: "string list" where
  "object_proto_names =
     [''constructor'', ''__defineGetter__'', ''__defineSetter__'', ''hasOwnProperty'',
      ''__lookupGetter__'', ''__lookupSetter__'', ''isPrototypeOf'', ''propertyIsEnumerable'',
      ''toString'', ''valueOf'', ''__proto__'', ''toLocaleString'']"

text \<open>What \<open>memorizeAreas.get(level, name)\<close> returns: nothing, a stored entry, a built-in of
  the standard prototype, or a field of the entry that serves as prototype.\<close>

datatype cached = Missing | Entry area_entry | Builtin | Inherited jvalue

definition field_cached :: "jvalue option \<Rightarrow> cached" where
  "field_cached v = (case v of None \<Rightarrow> Missing | Some x \<Rightarrow> Inherited x)"

definition cache_get :: "cache_level \<Rightarrow> string \<Rightarrow> cached" where
  "cache_get lv k =
     (case stored lv k of
        Some ent \<Rightarrow> Entry ent
      | None \<Rightarrow>
          (case inherited lv of
             Some ent \<Rightarrow>
               (if k = ''name'' then field_cached (ename ent)
                else if k = ''id'' then field_cached (eid ent)
                else if k = ''geometry'' then field_cached (egeometry ent)
                else if k \<in> set object_proto_names then Builtin
                else Missing)
           | None \<Rightarrow> (if k \<in> set object_proto_names then Builtin else Missing)))"

definition cache_put :: "cache_level \<Rightarrow> string \<Rightarrow> area_entry \<Rightarrow> cache_level" where
  "cache_put lv k ent =
     (if k = ''__proto__'' then lv\<lparr>inherited := Some ent\<rparr>
      else lv\<lparr>stored := (stored lv)(k \<mapsto> ent)\<rparr>)"

fun cached_truthy :: "env \<Rightarrow> cached \<Rightarrow> bool" where
  "cached_truthy e Missing = False"
| "cached_truthy e (Entry ent) = True"
| "cached_truthy e Builtin = True"
| "cached_truthy e (Inherited v) = truthy e v"

text \<open>\<open>x[i]\<close> on what the cache returned: an entry and a built-in have no indices.\<close>

fun cached_index :: "cached \<Rightarrow> nat \<Rightarrow> jvalue option" where
  "cached_index (Inherited v) i = get_prop v (show_nat i)"
| "cached_index c i = None"

fun getAdminLevelQuery :: "env \<Rightarrow> string \<Rightarrow> jvalue option \<Rightarrow> jvalue option \<Rightarrow> jvalue option
    \<Rightarrow> error + string option" where
  "getAdminLevelQuery e level nm name3 name4 =
     (if level = ''admin2'' then
        (case tmpl e nm of
           Inl err \<Rightarrow> Inl err
         | Inr n \<Rightarrow> Inr (Some (''scan admin-2 where name_'' @ n @ '' 1 1'')))
      else if level = ''admin3'' then
        (case collect [tmpl e nm, tmpl e name3, tmpl e name3] of
           Inl err \<Rightarrow> Inl err
         | Inr ss \<Rightarrow>
             Inr (Some (''scan admin-3 where name_'' @ ss ! 0 @ '' 1 1 where parent_id_level_2 ''
                        @ ss ! 1 @ '' '' @ ss ! 2)))
      else if level = ''admin4'' then
        (case collect [tmpl e nm, tmpl e name3, tmpl e name3, tmpl e name4, tmpl e name4] of
           Inl err \<Rightarrow> Inl err
         | Inr ss \<Rightarrow>
             Inr (Some (''scan admin-4 where name_'' @ ss ! 0 @ '' 1 1 where parent_id_level_2 ''
                        @ ss ! 1 @ '' '' @ ss ! 2 @ '' where parent_id_level_3 '' @ ss ! 3
                        @ '' '' @ ss ! 4)))
      else Inr None)"

text \<open>\<open>areas[i]\<close>, where \<open>areas\<close> is the \<open>arguments\<close> property of the condition's value.\<close>

fun areas_index :: "jvalue option \<Rightarrow> nat \<Rightarrow> error + jvalue option" where
  "areas_index None i = Inl TypeError"
| "areas_index (Some VNull) i = Inl TypeError"
| "areas_index (Some v) i = Inr (get_prop v (show_nat i))"

text \<open>Level 2: the cache, else the remote lookup; a truthy result fills \<open>ids[0]\<close> and
  the cache.\<close>

definition level2 :: "env \<Rightarrow> jvalue option \<Rightarrow> world \<Rightarrow> (error + jvalue option list) \<times> world" where
  "level2 e a0 w =
     (if \<not> opt_truthy e a0 then (Inr [None, None, None], w)
      else
        (case tmpl e a0 of
           Inl err \<Rightarrow> (Inl err, w)
         | Inr k \<Rightarrow>
             (let c = cache_get (admin2 w) k
              in if cached_truthy e c then
                   (Inr [cached_index c 0, None, None],
                    w\<lparr>admin2 := cache_put (admin2 w) k
                         \<lparr>ename = a0, eid = cached_index c 0, egeometry = cached_index c 1\<rparr>\<rparr>)
                 else
                   (case getAdminLevelQuery e ''admin2'' a0 None None of
                      Inl err \<Rightarrow> (Inl err, w)
                    | Inr q \<Rightarrow>
                        (let w1 = issue (AdminQuery q) w
                         in case admin_reply e q of
                              Inl err \<Rightarrow> (Inl err, w1)
                            | Inr None \<Rightarrow> (Inr [None, None, None], w1)
                            | Inr (Some r) \<Rightarrow>
                                (if truthy e r then
                                   (Inr [get_prop r ''0'', None, None],
                                    w1\<lparr>admin2 := cache_put (admin2 w1) k
                                          \<lparr>ename = a0, eid = get_prop r ''0'',
                                           egeometry = get_prop r ''1''\<rparr>\<rparr>)
                                 else (Inr [None, None, None], w1)))))))"

text \<open>Levels 3 and 4 read the \<open>admin3\<close> cache; on a miss the lookup is issued with the
  level-2 query and its answer is dropped.\<close>

definition level3 :: "env \<Rightarrow> jvalue option \<Rightarrow> jvalue option \<Rightarrow> jvalue option list \<Rightarrow> world
    \<Rightarrow> (error + jvalue option list) \<times> world" where
  "level3 e a0 a1 ids w =
     (if \<not> opt_truthy e a1 then (Inr ids, w)
      else
        (case tmpl e a1 of
           Inl err \<Rightarrow> (Inl err, w)
         | Inr k \<Rightarrow>
             (let c = cache_get (admin3 w) k
              in if cached_truthy e c then
                   (Inr (ids[1 := cached_index c 0]),
                    w\<lparr>admin3 := cache_put (admin3 w) k
                         \<lparr>ename = a1, eid = cached_index c 0, egeometry = cached_index c 1\<rparr>\<rparr>)
                 else
                   (case getAdminLevelQuery e ''admin2'' a0 (ids ! 0) None of
                      Inl err \<Rightarrow> (Inl err, w)
                    | Inr q \<Rightarrow>
                        (let w1 = issue (AdminQuery q) w
                         in case admin_reply e q of
                              Inl err \<Rightarrow> (Inl err, w1)
                            | Inr r \<Rightarrow> (Inr ids, w1))))))"

definition level4 :: "env \<Rightarrow> jvalue option \<Rightarrow> jvalue option \<Rightarrow> jvalue option \<Rightarrow> jvalue option list
    \<Rightarrow> world \<Rightarrow> (error + jvalue option list) \<times> world" where
  "level4 e a0 a1 a2 ids w =
     (if \<not> opt_truthy e a2 then (Inr ids, w)
      else
        (case tmpl e a2 of
           Inl err \<Rightarrow> (Inl err, w)
         | Inr k \<Rightarrow>
             (let c = cache_get (admin3 w) k
              in if cached_truthy e c then
                   (Inr (ids[2 := cached_index c 0]),
                    w\<lparr>admin4 := cache_put (admin4 w) k
                         \<lparr>ename = a1, eid = cached_index c 0, egeometry = cached_index c 1\<rparr>\<rparr>)
                 else
                   (case getAdminLevelQuery e ''admin2'' a0 (ids ! 0) (ids ! 1) of
                      Inl err \<Rightarrow> (Inl err, w)
                    | Inr q \<Rightarrow>
                        (let w1 = issue (AdminQuery q) w
                         in case admin_reply e q of
                              Inl err \<Rightarrow> (Inl err, w1)
                            | Inr r \<Rightarrow> (Inr ids, w1))))))"

text \<open>\<open>getAdminLevel\<close> returns the three slots of \<open>admin.ids\<close>.\<close>

definition getAdminLevel :: "env \<Rightarrow> jvalue option \<Rightarrow> world \<Rightarrow> (error + jvalue option list) \<times> world" where
  "getAdminLevel e areas w =
     (case areas_index areas 0 of
        Inl err \<Rightarrow> (Inl err, w)
      | Inr a0 \<Rightarrow>
         (case level2 e a0 w of
            (Inl err, w1) \<Rightarrow> (Inl err, w1)
          | (Inr ids1, w1) \<Rightarrow>
             (case areas_index areas 1 of
                Inl err \<Rightarrow> (Inl err, w1)
              | Inr a1 \<Rightarrow>
                 (case level3 e a0 a1 ids1 w1 of
                    (Inl err, w2) \<Rightarrow> (Inl err, w2)
                  | (Inr ids2, w2) \<Rightarrow>
                     (case areas_index areas 2 of
                        Inl err \<Rightarrow> (Inl err, w2)
                      | Inr a2 \<Rightarrow> level4 e a0 a1 a2 ids2 w2)))))"


section \<open>The semantic compiler\<close>

record tile38Query =
  head :: "jvalue option list"
  conditions :: "string list"
  location :: "jvalue option list"
  filter_obj :: "jvalue"

definition tile38FnKeys :: "string list" where
  "tile38FnKeys = [''within'', ''nearby'', ''scan'', ''intersects'', ''search'']"

text \<open>The index \<open>arguments.length + 1 - 2\<close> read from \<open>admin.ids\<close>, when it is an integer.\<close>

fun length_slot :: "env \<Rightarrow> jvalue \<Rightarrow> error + int option" where
  "length_slot e (VNum n) = (if safe_integer n then Inr (Some (\<lfloor>n\<rfloor> - 1)) else length_index e (VNum n))"
| "length_slot e (VBool b) = Inr (Some ((if b then 1 else 0) - 1))"
| "length_slot e VNull = Inr (Some (- 1))"
| "length_slot e l = length_index e l"

fun args_index :: "env \<Rightarrow> jvalue option \<Rightarrow> error + int option" where
  "args_index e (Some (VArr xs)) = Inr (Some (int (length xs) - 1))"
| "args_index e (Some (VStr s)) = Inr (Some (int (length s) - 1))"
| "args_index e (Some (VObj kvs p)) =
     (case get_prop (VObj kvs p) ''length'' of
        None \<Rightarrow> Inr None
      | Some l \<Rightarrow> length_slot e l)"
| "args_index e v = Inr None"

definition getAdminId :: "jvalue option list \<Rightarrow> int option \<Rightarrow> jvalue option" where
  "getAdminId ids i =
     (case i of None \<Rightarrow> None
      | Some j \<Rightarrow> (if 0 \<le> j \<and> nat j < length ids then ids ! nat j else None))"

text \<open>The spread \<open>...value.arguments\<close>: an array and a string are iterable, an object only
  when it inherits the iterator of an array.\<close>

fun spread :: "env \<Rightarrow> jvalue option \<Rightarrow> error + jvalue option list" where
  "spread e (Some (VArr xs)) = Inr (map Some xs)"
| "spread e (Some (VStr s)) = Inr (map (\<lambda>c. Some (VStr [c])) s)"
| "spread e (Some (VObj kvs p)) =
     (if chain_kind p = ThroughArray then object_spread e (VObj kvs p) else Inl TypeError)"
| "spread e v = Inl TypeError"

text \<open>A condition on one of the spatial-function keys: the verb, and for a function call
  the location.\<close>

definition fn_condition :: "env \<Rightarrow> string \<Rightarrow> jvalue \<Rightarrow> tile38Query \<Rightarrow> world
    \<Rightarrow> (error + tile38Query) \<times> world" where
  "fn_condition e k v tq w =
     (let tq1 = tq\<lparr>head := set0 (head tq) (Some (VStr k))\<rparr>
      in if v = VNull then (Inl TypeError, w)
         else if (case v of VObj kvs p \<Rightarrow> True | VArr xs \<Rightarrow> True | _ \<Rightarrow> False)
                 \<and> get_prop v ''fnName'' \<noteq> None then
           (let fnName = get_prop v ''fnName'';
                tq2 = tq1\<lparr>location := set0 (location tq1) fnName\<rparr>
            in if fnName = Some (VStr ''get'') then
                 (case getAdminLevel e (get_prop v ''arguments'') w of
                    (Inl err, w1) \<Rightarrow> (Inl err, w1)
                  | (Inr ids, w1) \<Rightarrow>
                      (case args_index e (get_prop v ''arguments'') of
                         Inl err \<Rightarrow> (Inl err, w1)
                       | Inr i \<Rightarrow>
                           (Inr (tq2\<lparr>location := location tq2 @ [getAdminId ids i]\<rparr>), w1)))
               else if fnName = Some (VStr ''point'') \<or> fnName = Some (VStr ''bounds'') then
                 (case spread e (get_prop v ''arguments'') of
                    Inl err \<Rightarrow> (Inl err, w)
                  | Inr xs \<Rightarrow> (Inr (tq2\<lparr>location := location tq2 @ xs\<rparr>), w))
               else (Inr tq2, w))
         else (Inr tq1, w))"

text \<open>\<open>value.map(f)\<close> for an \<open>f\<close> that calls a string method on each element: the elements
  that \<open>map\<close> visits, and \<open>f\<close> on each of them; a hole stays a hole.\<close>

fun map_elements :: "env \<Rightarrow> jvalue \<Rightarrow> error + jvalue option list" where
  "map_elements e (VArr xs) = Inr (map Some xs)"
| "map_elements e (VObj kvs p) =
     (if get_prop (VObj kvs p) ''map'' = None \<and> chain_kind p = ThroughArray
      then object_map e (VObj kvs p) else Inl TypeError)"
| "map_elements e v = Inl TypeError"

fun on_string :: "(string \<Rightarrow> error + 'a option) \<Rightarrow> jvalue option \<Rightarrow> error + 'a option" where
  "on_string f None = Inr None"
| "on_string f (Some (VStr s)) = f s"
| "on_string f (Some v) = Inl TypeError"

definition map_strings :: "env \<Rightarrow> (string \<Rightarrow> error + 'a option) \<Rightarrow> jvalue \<Rightarrow> error + 'a option list" where
  "map_strings e f v =
     (case map_elements e v of
        Inl err \<Rightarrow> Inl err
      | Inr xs \<Rightarrow> collect (map (on_string f) xs))"

definition show_opt_nat :: "nat option \<Rightarrow> string" where
  "show_opt_nat n = (case n of None \<Rightarrow> [] | Some k \<Rightarrow> show_nat k)"

text \<open>\<open>services[v.toUpperCase().trim()]\<close>.\<close>

definition service_id :: "env \<Rightarrow> (string \<Rightarrow> jvalue option) option \<Rightarrow> string \<Rightarrow> error + jvalue option" where
  "service_id e services s =
     (case services of
        None \<Rightarrow> Inl TypeError
      | Some sv \<Rightarrow> Inr (sv (trim (if is_ascii s then upper_ascii s else upper_case e s))))"

text \<open>The text of \<open>value.length\<close> in a template literal.\<close>

definition length_text :: "env \<Rightarrow> jvalue \<Rightarrow> error + string" where
  "length_text e v =
     (case v of
        VArr xs \<Rightarrow> Inr (show_nat (length xs))
      | _ \<Rightarrow> tmpl e (get_prop v ''length''))"

text \<open>The range clause of a numeric condition.\<close>

definition range_clause :: "env \<Rightarrow> string \<Rightarrow> string \<Rightarrow> rat \<Rightarrow> string list" where
  "range_clause e k op v =
     (if op = ''='' then [''where '' @ k @ '' '' @ number_text e v @ '' '' @ number_text e v]
      else if op = ''>'' then [''where '' @ k @ '' '' @ number_text e v @ '' +inf'']
      else if op = ''>='' then [''where '' @ k @ '' '' @ pred_text e v @ '' +inf'']
      else if op = ''<'' then [''where '' @ k @ '' -inf '' @ number_text e v]
      else if op = ''<='' then [''where '' @ k @ '' -inf '' @ pred_text e v]
      else [])"

text \<open>The spatial branch for a key that is no spatial-function key.  The flag says whether
  the branch ended in \<open>continue\<close>.\<close>

definition field_condition :: "env \<Rightarrow> (string \<Rightarrow> jvalue option) option \<Rightarrow> condition \<Rightarrow> tile38Query
    \<Rightarrow> error + tile38Query \<times> bool" where
  "field_condition e services c tq =
     (let k = key (left c); v = right c
      in if k = ''id'' then Inr (tq\<lparr>head := set1 (head tq) (Some v)\<rparr>, True)
         else if k = ''status'' then
           (case map_strings e (\<lambda>s. Inr (statusToNumber s)) v of
              Inl err \<Rightarrow> Inl err
            | Inr st \<Rightarrow>
                Inr (tq\<lparr>conditions := conditions tq @
                       [''wherein status '' @ show_nat (length st) @ '' ''
                        @ joinStr '' '' (map show_opt_nat st)]\<rparr>, True))
         else
           (let tq1 = (if k = ''filter'' then tq\<lparr>filter_obj := v\<rparr> else tq)
            in if k = ''service'' then
                 (case map_strings e (service_id e services) v of
                    Inl err \<Rightarrow> Inl err
                  | Inr ids \<Rightarrow>
                      (case collect (map (join_elem e) ids) of
                         Inl err \<Rightarrow> Inl err
                       | Inr ss \<Rightarrow>
                           (case length_text e v of
                              Inl err \<Rightarrow> Inl err
                            | Inr n \<Rightarrow>
                                Inr (tq1\<lparr>conditions := conditions tq1 @
                                       [''wherein service '' @ n @ '' '' @ joinStr '' '' ss]\<rparr>,
                                     True))))
               else
                 (case v of
                    VArr xs \<Rightarrow>
                      (if k = ''order_status'' then
                         (case map_strings e (\<lambda>s. Inr (orderStatusToNumber s)) v of
                            Inl err \<Rightarrow> Inl err
                          | Inr os \<Rightarrow>
                              Inr (tq1\<lparr>conditions := conditions tq1 @
                                     [''wherein order_status '' @ show_nat (length os) @ '' ''
                                      @ joinStr '' '' (map show_opt_nat os)]\<rparr>, True))
                       else
                         (case collect (map (\<lambda>x. join_elem e (Some x)) xs) of
                            Inl err \<Rightarrow> Inl err
                          | Inr ss \<Rightarrow>
                              Inr (tq1\<lparr>conditions := conditions tq1 @
                                     [''wherein '' @ k @ '' '' @ show_nat (length xs) @ '' ''
                                      @ joinStr '' '' ss]\<rparr>, True)))
                  | VNum n \<Rightarrow>
                      Inr (tq1\<lparr>conditions := conditions tq1 @ range_clause e k (operator c) n\<rparr>, False)
                  | _ \<Rightarrow> Inr (tq1, False))))"

text \<open>The record-service branch.\<close>

definition metabase_condition :: "string \<Rightarrow> condition \<Rightarrow> jobject \<Rightarrow> jobject" where
  "metabase_condition al c mq =
     (if al \<in> set [''m'', ''metabase'', ''u'', ''url''] then
        (if key (left c) = ''id'' then obj_set mq ''cardid'' (right c)
         else obj_set mq (key (left c)) (right c))
      else mq)"

text \<open>One iteration of the loop over \<open>ast.where\<close>.\<close>

definition resolve_alias :: "string \<Rightarrow> condition \<Rightarrow> string" where
  "resolve_alias dbName c = (case kalias (left c) of None \<Rightarrow> dbName | Some a \<Rightarrow> a)"

definition condition_step :: "env \<Rightarrow> (string \<Rightarrow> jvalue option) option \<Rightarrow> string \<Rightarrow> condition
    \<Rightarrow> tile38Query \<times> jobject \<Rightarrow> world \<Rightarrow> (error + tile38Query \<times> jobject) \<times> world" where
  "condition_step e services dbName c st w =
     (let k = key (left c); al = resolve_alias dbName c; tq = fst st; mq = snd st
      in if al = ''t'' \<or> al = ''tile38'' \<or> k \<in> set tile38FnKeys then
           (if k \<in> set tile38FnKeys then
              (case fn_condition e k (right c) tq w of
                 (Inl err, w1) \<Rightarrow> (Inl err, w1)
               | (Inr tq1, w1) \<Rightarrow> (Inr (tq1, mq), w1))
            else
              (case field_condition e services c tq of
                 Inl err \<Rightarrow> (Inl err, w)
               | Inr (tq1, continued) \<Rightarrow>
                   (if continued then (Inr (tq1, mq), w)
                    else (Inr (tq1, metabase_condition al c mq), w))))
         else (Inr (tq, metabase_condition al c mq), w))"

fun conditions_loop :: "env \<Rightarrow> (string \<Rightarrow> jvalue option) option \<Rightarrow> string \<Rightarrow> condition list
    \<Rightarrow> tile38Query \<times> jobject \<Rightarrow> world \<Rightarrow> (error + tile38Query \<times> jobject) \<times> world" where
  "conditions_loop e services dbName [] st w = (Inr st, w)"
| "conditions_loop e services dbName (c # cs) st w =
     (case condition_step e services dbName c st w of
        (Inl err, w1) \<Rightarrow> (Inl err, w1)
      | (Inr st1, w1) \<Rightarrow> conditions_loop e services dbName cs st1 w1)"


text \<open>Join resolution: the record service is queried with the parameter map, and the
  surrogate ids of its rows become a \<open>wherein\<close> clause.  \<open>row_id\<close> is
  \<open>str2Number(o[mItem.key])\<close> for a row \<open>o\<close>: anything but a string under that key has no
  \<open>split\<close>.\<close>

definition row_id :: "key_ref option \<Rightarrow> jvalue \<Rightarrow> error + string" where
  "row_id mItem row =
     (case mItem of
        None \<Rightarrow> Inl TypeError
      | Some mi \<Rightarrow>
          (if row = VNull then Inl TypeError
           else case get_prop row (key mi) of
                  Some (VStr x) \<Rightarrow> Inr (str2Number x)
                | _ \<Rightarrow> Inl TypeError))"

definition join_ids :: "key_ref option \<Rightarrow> jvalue \<Rightarrow> error + string list" where
  "join_ids mItem mData =
     (case mData of
        VArr rows \<Rightarrow> collect (map (row_id mItem) rows)
      | _ \<Rightarrow> Inl TypeError)"

definition join_part :: "env \<Rightarrow> join_condition option \<Rightarrow> tile38Query \<times> jobject
    \<Rightarrow> world \<Rightarrow> (error + tile38Query \<times> jobject) \<times> world" where
  "join_part e j st w =
     (case j of
        None \<Rightarrow> (Inr st, w)
      | Some jc \<Rightarrow>
          (let tq = fst st; mq = snd st; w1 = issue (MetabaseCard mq) w
           in case metabase_reply e mq of
                Inl err \<Rightarrow> (Inl err, w1)
              | Inr mData \<Rightarrow>
                  (let tItem = find (\<lambda>x. kalias x = Some ''t'' \<or> kalias x = Some ''tile38'')
                                 [jleft jc, jright jc];
                       mItem = find (\<lambda>x. kalias x = Some ''m'' \<or> kalias x = Some ''metabase'')
                                 [jleft jc, jright jc]
                   in case join_ids mItem mData of
                        Inl err \<Rightarrow> (Inl err, w1)
                      | Inr ids \<Rightarrow>
                          (case tItem of
                             None \<Rightarrow> (Inl TypeError, w1)
                           | Some ti \<Rightarrow>
                               (Inr (tq\<lparr>conditions := conditions tq @
                                       [''wherein '' @ key ti @ '' '' @ show_nat (length ids) @ '' ''
                                        @ joinStr '' '' ids]\<rparr>, mq), w1)))))"

text \<open>The dynamic-registration side channel.\<close>

definition cast_part :: "env \<Rightarrow> tile38Query \<times> jobject \<Rightarrow> world
    \<Rightarrow> (error + tile38Query \<times> jobject) \<times> world" where
  "cast_part e st w =
     (let tq = fst st; mq = snd st
      in if obj_has mq ''cast_to'' then
           (let mq1 = obj_delete mq ''cast_to'';
                idField = obj_get mq1 ''id_field'';
                geometry = obj_get mq1 ''geometry'';
                mq2 = obj_delete (obj_delete mq1 ''id_field'') ''geometry''
            in case idField of
                 None \<Rightarrow> (Inl (Error ''missing id_field field''), w)
               | Some idf \<Rightarrow>
                   (if \<not> truthy e idf then (Inl (Error ''missing id_field field''), w)
                    else case geometry of
                           None \<Rightarrow> (Inl (Error ''missing geometry field''), w)
                         | Some geo \<Rightarrow>
                             (if \<not> truthy e geo then (Inl (Error ''missing geometry field''), w)
                              else
                                (let url = ''https://ep.ahamove.com/bi/v1/metabase_card?''
                                             @ stringify e mq2;
                                     w1 = issue (Tile38Add url idf geo) w
                                 in case add_reply e url idf geo of
                                      Inl err \<Rightarrow> (Inl err, w1)
                                    | Inr k \<Rightarrow>
                                        (Inr (tq\<lparr>head := set1 (head tq) k\<rparr>, mq2), w1)))))
         else (Inr st, w))"

definition initial_tile38Query :: tile38Query where
  "initial_tile38Query = \<lparr>head = [], conditions = [], location = [], filter_obj = VObj [] StdProto\<rparr>"

text \<open>Everything up to the final dispatch: the registry fetch, the loop, the join and the
  registration.\<close>

definition build :: "env \<Rightarrow> select_ast \<Rightarrow> condition list \<Rightarrow> world
    \<Rightarrow> (error + tile38Query \<times> jobject) \<times> world" where
  "build e ast cs w =
     (let w0 = issue GetServices w
      in case services_reply e of
           Inl err \<Rightarrow> (Inl err, w0)
         | Inr services \<Rightarrow>
             (case conditions_loop e services (name (database ast)) cs
                     (initial_tile38Query, empty_object) w0 of
                (Inl err, w1) \<Rightarrow> (Inl err, w1)
              | (Inr st1, w1) \<Rightarrow>
                  (case join_part e (join ast) st1 w1 of
                     (Inl err, w2) \<Rightarrow> (Inl err, w2)
                   | (Inr st2, w2) \<Rightarrow> cast_part e st2 w2)))"

text \<open>The command string of the spatial engine: the head, the conditions, \<open>limit\<close> and
  \<open>ast.limit ?? 100\<close>, and the location, joined with a space.\<close>

definition limit_text :: "env \<Rightarrow> rat option \<Rightarrow> string" where
  "limit_text e lmt = (case lmt of None \<Rightarrow> ''100'' | Some l \<Rightarrow> number_text e l)"

definition command_string :: "env \<Rightarrow> tile38Query \<Rightarrow> rat option \<Rightarrow> error + string" where
  "command_string e tq lmt =
     (case collect (map (join_elem e) (head tq) @ map Inr (conditions tq)
                    @ [Inr ''limit'', Inr (limit_text e lmt)]
                    @ map (join_elem e) (location tq)) of
        Inl err \<Rightarrow> Inl err
      | Inr ss \<Rightarrow> Inr (joinStr '' '' ss))"

definition dispatch :: "env \<Rightarrow> select_ast \<Rightarrow> tile38Query \<times> jobject \<Rightarrow> world
    \<Rightarrow> (error + unit) \<times> world" where
  "dispatch e ast st w =
     (let dbName = name (database ast); tq = fst st; mq = snd st
      in if dbName = ''t'' \<or> dbName = ''tile38'' then
           (case command_string e tq (limit ast) of
              Inl err \<Rightarrow> (Inl err, w)
            | Inr q \<Rightarrow>
                (let w1 = issue (Tile38Query q (filter_obj tq)) w
                 in case tile38_reply e q (filter_obj tq) of
                      Inl err \<Rightarrow> (Inl err, w1)
                    | Inr u \<Rightarrow> (Inr (), w1)))
         else if dbName = ''m'' \<or> dbName = ''metabase'' then
           (let w1 = issue (MetabaseCard mq) w
            in case metabase_reply e mq of
                 Inl err \<Rightarrow> (Inl err, w1)
               | Inr rows \<Rightarrow> (Inr (), w1))
         else (Inr (), w))"

definition parseSelect :: "env \<Rightarrow> select_ast \<Rightarrow> world \<Rightarrow> (error + unit) \<times> world" where
  "parseSelect e ast w =
     (case wheres ast of
        None \<Rightarrow> (Inr (), w)
      | Some cs \<Rightarrow>
          (case build e ast cs w of
             (Inl err, w1) \<Rightarrow> (Inl err, w1)
           | (Inr st, w1) \<Rightarrow> dispatch e ast st w1))"

section \<open>Lexical helpers of the grammar\<close>

text \<open>A parser reads a prefix of its input and returns a result with the rest, or fails
  (\<open>None\<close>).  The combinators of the parsing library are written out: \<open>p.then(q)\<close>,
  \<open>p.skip(q)\<close> and \<open>seqObj\<close> as nested \<open>case\<close>, \<open>alt\<close> and \<open>or\<close> as ordered choice.\<close>

type_synonym 'a parser = "string \<Rightarrow> ('a \<times> string) option"

text \<open>\<open>whitespace\<close> is the regular expression \<open>\s*\<close>; \<open>comment\<close> is \<open>--.*\<close> or nothing, where
  the dot stops at a line terminator.  Both always succeed.\<close>

definition whitespace :: "string \<Rightarrow> string" where
  "whitespace s = dropWhile is_space s"

definition is_line_end :: "char \<Rightarrow> bool" where
  "is_line_end c = (c = CHR 0x0A \<or> c = CHR 0x0D)"

fun comment :: "string \<Rightarrow> string" where
  "comment (c # d # s) =
     (if c = CHR ''-'' \<and> d = CHR ''-'' then dropWhile (\<lambda>x. \<not> is_line_end x) s else c # d # s)"
| "comment s = s"

text \<open>\<open>token(p)\<close> is \<open>p\<close>, then \<open>whitespace\<close>, then \<open>comment\<close>; \<open>after_token\<close> is what follows
  \<open>p\<close>, and \<open>token_comment\<close> is \<open>token(comment)\<close>.\<close>

definition after_token :: "string \<Rightarrow> string" where
  "after_token s = comment (whitespace s)"

definition token_comment :: "string \<Rightarrow> string" where
  "token_comment s = after_token (comment s)"

text \<open>\<open>word(str)\<close> is \<open>token(comment).then(P.string(str)).thru(token)\<close>.\<close>

definition word :: "string \<Rightarrow> string parser" where
  "word str s =
     (let s1 = token_comment s
      in if prefix str s1 then Some (str, after_token (drop (length str) s1)) else None)"

text \<open>\<open>interpretEscapes\<close>: the regular expression has no global flag, so \<open>replace\<close> rewrites
  the leftmost match only.  A code unit above 255 is outside the character type.\<close>

definition is_hex :: "char \<Rightarrow> bool" where
  "is_hex c = (c \<in> set ''0123456789abcdefABCDEF'')"

definition hex_val :: "char \<Rightarrow> nat" where
  "hex_val c =
     (let i = length (takeWhile (\<lambda>d. d \<noteq> c) ''0123456789abcdefABCDEF'')
      in if i < 16 then i else i - 6)"

definition escape_char :: "char \<Rightarrow> char" where
  "escape_char t =
     (if t = CHR ''b'' then CHR 0x08
      else if t = CHR ''f'' then CHR 0x0C
      else if t = CHR ''n'' then CHR 0x0A
      else if t = CHR ''r'' then CHR 0x0D
      else if t = CHR ''t'' then CHR 0x09
      else t)"

fun interpretEscapes :: "string \<Rightarrow> string" where
  "interpretEscapes [] = []"
| "interpretEscapes [c] = [c]"
| "interpretEscapes (c # d # s) =
     (if c = CHR 0x5C then
        (if d = CHR ''u'' then
           (if 4 \<le> length s \<and> list_all is_hex (take 4 s)
            then char_of (foldl (\<lambda>a h. 16 * a + hex_val h) 0 (take 4 s)) # drop 4 s
            else c # interpretEscapes (d # s))
         else escape_char d # s)
      else c # interpretEscapes (d # s))"

text \<open>The body of a string literal after its opening quote, \<open>((?:\\.|.)*?)(["'])\<close>: the lazy
  star first tries to close, then takes an escaped pair, then a single character.\<close>

definition is_quote :: "char \<Rightarrow> bool" where
  "is_quote c = (c = CHR 0x22 \<or> c = CHR 0x27)"

fun string_body :: "string \<Rightarrow> (string \<times> string) option" where
  "string_body [] = None"
| "string_body [c] = (if is_quote c then Some ([], []) else None)"
| "string_body (c # d # s) =
     (if is_quote c then Some ([], d # s)
      else
        (case (if c = CHR 0x5C \<and> \<not> is_line_end d
               then map_option (\<lambda>(x, r). (c # d # x, r)) (string_body s) else None) of
           Some res \<Rightarrow> Some res
         | None \<Rightarrow>
             (if is_line_end c then None
              else map_option (\<lambda>(x, r). (c # x, r)) (string_body (d # s)))))"

definition string_p :: "string parser" where
  "string_p s =
     (case s of
        [] \<Rightarrow> None
      | q # r \<Rightarrow>
          (if is_quote q then
             (case string_body r of
                None \<Rightarrow> None
              | Some (x, r') \<Rightarrow> Some (interpretEscapes x, after_token r'))
           else None))"

definition is_ident :: "char \<Rightarrow> bool" where
  "is_ident c =
     (c \<in> set ''abcdefghijklmnopqrstuvwxyzABCDEFGHIJKLMNOPQRSTUVWXYZ0123456789-_'')"

text \<open>\<open>text\<close> is the token \<open>[a-zA-Z0-9-_]*\<close>; it matches the empty string too.\<close>

definition text_p :: "string parser" where
  "text_p s = Some (interpretEscapes (takeWhile is_ident s), after_token (dropWhile is_ident s))"

text \<open>Numbers: \<open>-?(0|[1-9][0-9]*)([.][0-9]+)?([eE][+-]?[0-9]+)?\<close>.\<close>

definition is_digit :: "char \<Rightarrow> bool" where
  "is_digit c = (c \<in> set ''0123456789'')"

definition digits_val :: "string \<Rightarrow> nat" where
  "digits_val ds = foldl (\<lambda>a d. 10 * a + hex_val d) 0 ds"

definition int_part :: "string \<Rightarrow> (string \<times> string) option" where
  "int_part s =
     (case s of
        [] \<Rightarrow> None
      | c # r \<Rightarrow>
          (if c = CHR ''0'' then Some ([c], r)
           else if is_digit c then Some (c # takeWhile is_digit r, dropWhile is_digit r)
           else None))"

definition frac_part :: "string \<Rightarrow> string \<times> string" where
  "frac_part s =
     (case s of
        c # d # r \<Rightarrow>
          (if c = CHR ''.'' \<and> is_digit d then (takeWhile is_digit (d # r), dropWhile is_digit (d # r))
           else ([], s))
      | _ \<Rightarrow> ([], s))"

definition exp_digits :: "bool \<Rightarrow> string \<Rightarrow> string \<Rightarrow> (bool \<times> string) \<times> string" where
  "exp_digits neg s whole =
     (case s of
        [] \<Rightarrow> ((False, []), whole)
      | d # r \<Rightarrow>
          (if is_digit d then ((neg, takeWhile is_digit s), dropWhile is_digit s)
           else ((False, []), whole)))"

definition exp_part :: "string \<Rightarrow> (bool \<times> string) \<times> string" where
  "exp_part s =
     (case s of
        [] \<Rightarrow> ((False, []), s)
      | e # r \<Rightarrow>
          (if e = CHR ''e'' \<or> e = CHR ''E'' then
             (case r of
                [] \<Rightarrow> ((False, []), s)
              | g # r' \<Rightarrow>
                  (if g = CHR ''+'' then exp_digits False r' s
                   else if g = CHR ''-'' then exp_digits True r' s
                   else exp_digits False r s))
           else ((False, []), s)))"

definition number_value :: "bool \<Rightarrow> string \<Rightarrow> string \<Rightarrow> bool \<times> string \<Rightarrow> rat" where
  "number_value neg ip fp ex =
     (let m = of_nat (digits_val ip) + of_nat (digits_val fp) / 10 ^ length fp;
          x = (if fst ex then m / 10 ^ digits_val (snd ex) else m * 10 ^ digits_val (snd ex))
      in if neg then - x else x)"

definition number_p :: "rat parser" where
  "number_p s =
     (let neg = (case s of [] \<Rightarrow> False | c # r \<Rightarrow> c = CHR ''-'');
          s1 = (if neg then tl s else s)
      in case int_part s1 of
           None \<Rightarrow> None
         | Some (ip, r1) \<Rightarrow>
             (case frac_part r1 of
                (fp, r2) \<Rightarrow>
                  (case exp_part r2 of
                     (ex, r3) \<Rightarrow> Some (number_value neg ip fp ex, after_token r3))))"

section \<open>Repetition\<close>

text \<open>\<open>p.many()\<close>: the results of \<open>p\<close> as long as it succeeds.  The library raises an error
  when a step consumes nothing; the repeated parsers of this grammar all start with a
  separator word, so the test on the lengths never fails (\<open>many_sep_then\<close> below).\<close>

function many :: "'a parser \<Rightarrow> string \<Rightarrow> 'a list \<times> string" where
  "many p s =
     (case p s of
        None \<Rightarrow> ([], s)
      | Some (v, r) \<Rightarrow>
          (if length r < length s then (case many p r of (vs, r') \<Rightarrow> (v # vs, r'))
           else ([], s)))"
  by pat_completeness auto
termination
  by (relation "measure (\<lambda>(p, s). length s)") auto

declare many.simps [simp del]

text \<open>\<open>p.sepBy(sep)\<close>: \<open>p\<close>, then \<open>sep.then(p).many()\<close>; or the empty list.  The test on the
  lengths holds for the parsers this grammar repeats (\<open>value_p_shorter\<close>, \<open>pair_shorter\<close> and
  \<open>pairCondition_shorter\<close> below); it is what lets the definition of \<open>value_p\<close> terminate.\<close>

definition sep_then :: "'b parser \<Rightarrow> 'a parser \<Rightarrow> 'a parser" where
  "sep_then sep p s = (case sep s of None \<Rightarrow> None | Some (x, r) \<Rightarrow> p r)"

definition sepBy :: "'a parser \<Rightarrow> 'b parser \<Rightarrow> string \<Rightarrow> 'a list \<times> string" where
  "sepBy p sep s =
     (case p s of
        None \<Rightarrow> ([], s)
      | Some (v, r) \<Rightarrow>
          (if length r \<le> length s then (case many (sep_then sep p) r of (vs, r') \<Rightarrow> (v # vs, r'))
           else ([], s)))"

section \<open>The value grammar\<close>

definition lbrace :: "string parser" where "lbrace = word ''{''"
definition rbrace :: "string parser" where "rbrace = word ''}''"
definition lbracket :: "string parser" where "lbracket = word ''[''"
definition rbracket :: "string parser" where "rbracket = word '']''"
definition lParenthesis :: "string parser" where "lParenthesis = word ''(''"
definition rParenthesis :: "string parser" where "rParenthesis = word '')''"
definition comma :: "string parser" where "comma = word '',''"
definition colon :: "string parser" where "colon = word '':''"
definition dot :: "string parser" where "dot = word ''.''"
definition and_p :: "string parser" where "and_p = word ''and''"

text \<open>\<open>P.alt\<close> on two parsers.\<close>

definition alt :: "'a parser \<Rightarrow> 'a parser \<Rightarrow> 'a parser" where
  "alt p q s = (case p s of Some res \<Rightarrow> Some res | None \<Rightarrow> q s)"

definition constants :: "string parser" where
  "constants = alt (word ''current_bounds'') (alt (word ''current_points'') (word ''current_features''))"

text \<open>\<open>pair\<close> is \<open>P.seq(r.string.skip(r.colon), r.value)\<close>.\<close>

definition pair :: "jvalue parser \<Rightarrow> (string \<times> jvalue) parser" where
  "pair vp s =
     (case string_p s of
        None \<Rightarrow> None
      | Some (k, r1) \<Rightarrow>
          (case colon r1 of
             None \<Rightarrow> None
           | Some (x, r2) \<Rightarrow>
               (case vp r2 of
                  None \<Rightarrow> None
                | Some (v, r3) \<Rightarrow> Some ((k, v), r3))))"

text \<open>\<open>object\<close>: the pairs are copied into an object one by one.\<close>

definition make_object :: "(string \<times> jvalue) list \<Rightarrow> jvalue" where
  "make_object pairs =
     (let ob = foldl (\<lambda>ob (k, v). obj_set ob k v) empty_object pairs in VObj (fst ob) (snd ob))"

definition object :: "jvalue parser \<Rightarrow> jvalue parser" where
  "object vp s =
     (case lbrace s of
        None \<Rightarrow> None
      | Some (x, r1) \<Rightarrow>
          (case sepBy (pair vp) comma r1 of
             (pairs, r2) \<Rightarrow>
               (case rbrace r2 of
                  None \<Rightarrow> None
                | Some (y, r3) \<Rightarrow> Some (make_object pairs, r3))))"

definition array :: "jvalue parser \<Rightarrow> jvalue parser" where
  "array vp s =
     (case alt lbracket lParenthesis s of
        None \<Rightarrow> None
      | Some (x, r1) \<Rightarrow>
          (case sepBy vp comma r1 of
             (vs, r2) \<Rightarrow>
               (case alt rbracket rParenthesis r2 of
                  None \<Rightarrow> None
                | Some (y, r3) \<Rightarrow> Some (VArr vs, r3))))"

text \<open>\<open>fn\<close>: an object with the properties \<open>fnName\<close> and \<open>arguments\<close>.\<close>

definition fn :: "jvalue parser \<Rightarrow> jvalue parser" where
  "fn vp s =
     (case text_p s of
        None \<Rightarrow> None
      | Some (nm, r1) \<Rightarrow>
          (case lParenthesis r1 of
             None \<Rightarrow> None
           | Some (x, r2) \<Rightarrow>
               (case sepBy vp comma r2 of
                  (vs, r3) \<Rightarrow>
                    (case rParenthesis r3 of
                       None \<Rightarrow> None
                     | Some (y, r4) \<Rightarrow>
                         Some (VObj [(''fnName'', VStr nm), (''arguments'', VArr vs)] StdProto, r4)))))"

definition map_p :: "('a \<Rightarrow> 'b) \<Rightarrow> 'a parser \<Rightarrow> 'b parser" where
  "map_p f p s = (case p s of None \<Rightarrow> None | Some (v, r) \<Rightarrow> Some (f v, r))"

text \<open>The alternatives of \<open>value\<close> that hold no nested value.\<close>

definition atom :: "jvalue parser" where
  "atom =
     alt (map_p VStr string_p)
       (alt (map_p VNum number_p)
          (alt (map_p (\<lambda>x. VNull) (word ''null''))
             (alt (map_p (\<lambda>x. VBool True) (word ''true''))
                (map_p (\<lambda>x. VBool False) (word ''false'')))))"

subsection \<open>Every parser returns a suffix no longer than its input\<close>

lemma whitespace_le: "length (whitespace s) \<le> length s"
  by (simp add: whitespace_def length_dropWhile_le)

lemma comment_le: "length (comment s) \<le> length s"
  by (cases s rule: comment.cases) (auto intro: le_trans[OF length_dropWhile_le])

lemma after_token_le: "length (after_token s) \<le> length s"
  unfolding after_token_def using comment_le whitespace_le le_trans by blast

lemma token_comment_le: "length (token_comment s) \<le> length s"
  unfolding token_comment_def using comment_le after_token_le le_trans by blast

lemma word_le: "word str s = Some (x, r) \<Longrightarrow> length r + length str \<le> length s"
proof -
  assume a: "word str s = Some (x, r)"
  let ?s1 = "token_comment s"
  from a have p: "prefix str ?s1" and r: "r = after_token (drop (length str) ?s1)"
    by (auto simp: word_def Let_def split: if_splits)
  from p have "length str \<le> length ?s1" by (rule prefix_length_le)
  moreover have "length r \<le> length ?s1 - length str"
    using after_token_le[of "drop (length str) ?s1"] r by simp
  ultimately show ?thesis using token_comment_le[of s] by linarith
qed

lemma word_shorter: "word str s = Some (x, r) \<Longrightarrow> str \<noteq> [] \<Longrightarrow> length r < length s"
  using word_le[of str s x r] by (cases str) auto

lemma string_body_le: "string_body s = Some (x, r) \<Longrightarrow> length r < length s"
proof (induction s arbitrary: x r rule: string_body.induct)
  case 1
  then show ?case by simp
next
  case (2 c)
  then show ?case by (simp split: if_splits)
next
  case (3 c d s)
  show ?case
  proof (cases "is_quote c")
    case True
    with 3(3) show ?thesis by simp
  next
    case nq: False
    let ?e = "(if c = CHR 0x5C \<and> \<not> is_line_end d
               then map_option (\<lambda>(x, r). (c # d # x, r)) (string_body s) else None)"
    show ?thesis
    proof (cases ?e)
      case None
      with nq 3(3) have nl: "\<not> is_line_end c"
        and "map_option (\<lambda>(x, r). (c # x, r)) (string_body (d # s)) = Some (x, r)"
        by (auto split: if_splits)
      then obtain x' where "string_body (d # s) = Some (x', r)" by auto
      from 3(2)[OF nq None nl this] show ?thesis by simp
    next
      case (Some res)
      with nq 3(3) have res: "res = (x, r)" by simp
      from Some have c: "c = CHR 0x5C \<and> \<not> is_line_end d" by (auto split: if_splits)
      with Some res obtain x' where "string_body s = Some (x', r)" by auto
      from 3(1)[OF nq c this] show ?thesis by simp
    qed
  qed
qed

lemma string_p_shorter: "string_p s = Some (x, r) \<Longrightarrow> length r < length s"
  unfolding string_p_def
  by (auto split: list.splits if_splits option.splits dest!: string_body_le
      intro: le_less_trans[OF after_token_le] less_trans)

lemma text_p_le: "text_p s = Some (x, r) \<Longrightarrow> length r \<le> length s"
  unfolding text_p_def
  by (auto intro: le_trans[OF after_token_le] length_dropWhile_le)

lemma many_le: "many p s = (vs, r) \<Longrightarrow> length r \<le> length s"
proof (induction p s arbitrary: vs r rule: many.induct)
  case (1 p s)
  show ?case
  proof (cases "p s")
    case None
    with 1(2) show ?thesis by (simp add: many.simps)
  next
    case (Some a)
    obtain v r0 where a: "a = (v, r0)" by (cases a)
    show ?thesis
    proof (cases "length r0 < length s")
      case True
      obtain vs' r' where m: "many p r0 = (vs', r')" by (cases "many p r0")
      from 1(1)[OF Some a[symmetric] True m] have "length r' \<le> length r0" .
      moreover from 1(2) Some a True m have "r = r'" by (simp add: many.simps)
      ultimately show ?thesis using True by simp
    next
      case False
      with 1(2) Some a have "r = s" by (simp add: many.simps)
      then show ?thesis by simp
    qed
  qed
qed

lemma many_cong [fundef_cong]:
  assumes "s = t" and "\<And>x. length x \<le> length t \<Longrightarrow> p x = q x"
  shows "many p s = many q t"
  unfolding assms(1) using assms(2)
proof (induction q t rule: many.induct)
  case (1 q t)
  have pq: "p t = q t" using 1(2) by simp
  show ?case
  proof (cases "q t")
    case None
    then show ?thesis using pq by (simp add: many.simps)
  next
    case (Some a)
    obtain v r0 where a: "a = (v, r0)" by (cases a)
    show ?thesis
    proof (cases "length r0 < length t")
      case True
      have "many p r0 = many q r0"
        by (rule 1(1)[OF Some a[symmetric] True]) (use 1(2) True in auto)
      then show ?thesis using Some a True pq
        by (simp add: many.simps[of p t] many.simps[of q t])
    next
      case False
      then show ?thesis using Some a pq
        by (simp add: many.simps[of p t] many.simps[of q t])
    qed
  qed
qed


lemma sep_then_cong:
  assumes "\<And>x. length x \<le> length s \<Longrightarrow> p x = q x"
  shows "sep_then (word str) p s = sep_then (word str) q s"
  unfolding sep_then_def
  by (auto split: option.splits intro!: assms dest!: word_le)

lemma sepBy_cong [fundef_cong]:
  assumes "s = t" and "\<And>x. length x \<le> length t \<Longrightarrow> p x = q x"
  shows "sepBy p comma s = sepBy q comma t"
proof -
  have pq: "p t = q t" using assms(2) by simp
  show ?thesis
  proof (cases "q t")
    case None
    then show ?thesis using pq assms(1) by (simp add: sepBy_def)
  next
    case (Some a)
    obtain v r where a: "a = (v, r)" by (cases a)
    show ?thesis
    proof (cases "length r \<le> length t")
      case True
      have "many (sep_then comma p) r = many (sep_then comma q) r"
      proof (rule many_cong[OF refl])
        fix x :: string assume "length x \<le> length r"
        then show "sep_then comma p x = sep_then comma q x"
          unfolding comma_def using True assms(2) by (intro sep_then_cong) simp
      qed
      then show ?thesis using Some a pq assms(1) True by (simp add: sepBy_def)
    next
      case False
      then show ?thesis using Some a pq assms(1) by (simp add: sepBy_def)
    qed
  qed
qed

lemma pair_cong [fundef_cong]:
  assumes "s = t" and "\<And>x. length x < length t \<Longrightarrow> vp x = vq x"
  shows "pair vp s = pair vq t"
  unfolding assms(1)
proof (cases "string_p t")
  case None
  then show "pair vp t = pair vq t" by (simp add: pair_def)
next
  case (Some a)
  obtain k r1 where a: "a = (k, r1)" by (cases a)
  show "pair vp t = pair vq t"
  proof (cases "colon r1")
    case None
    then show ?thesis using Some a by (simp add: pair_def)
  next
    case c: (Some b)
    obtain x r2 where b: "b = (x, r2)" by (cases b)
    have "length r2 < length t"
      using string_p_shorter[OF Some[unfolded a]] word_le[OF c[unfolded b colon_def]] by simp
    then have "vp r2 = vq r2" by (rule assms(2))
    then show ?thesis using Some a c b by (simp add: pair_def)
  qed
qed

lemma sepBy_le: "sepBy p sep s = (vs, r) \<Longrightarrow> length r \<le> length s"
  unfolding sepBy_def
  by (auto split: option.splits prod.splits if_splits dest!: many_le)

lemma object_cong [fundef_cong]:
  assumes "s = t" and "\<And>x. length x < length t \<Longrightarrow> vp x = vq x"
  shows "object vp s = object vq t"
proof -
  have "sepBy (pair vp) comma r = sepBy (pair vq) comma r" if "length r < length t" for r
    by (rule sepBy_cong[OF refl], rule pair_cong[OF refl], rule assms(2)) (use that in simp)
  then show ?thesis
    unfolding assms(1) object_def lbrace_def
    by (auto split: option.splits dest!: word_shorter)
qed

lemma alt_word_shorter:
  "alt (word a) (word b) s = Some (x, r) \<Longrightarrow> a \<noteq> [] \<Longrightarrow> b \<noteq> [] \<Longrightarrow> length r < length s"
  unfolding alt_def by (auto split: option.splits dest: word_shorter)

lemma array_cong [fundef_cong]:
  assumes "s = t" and "\<And>x. length x < length t \<Longrightarrow> vp x = vq x"
  shows "array vp s = array vq t"
proof -
  have "sepBy vp comma r = sepBy vq comma r" if "length r < length t" for r
    by (rule sepBy_cong[OF refl], rule assms(2)) (use that in simp)
  then show ?thesis
    unfolding assms(1) array_def lbracket_def lParenthesis_def
    by (auto split: option.splits dest!: alt_word_shorter)
qed

lemma fn_cong [fundef_cong]:
  assumes "s = t" and "\<And>x. length x < length t \<Longrightarrow> vp x = vq x"
  shows "fn vp s = fn vq t"
proof -
  have "sepBy vp comma r = sepBy vq comma r" if "length r < length t" for r
    by (rule sepBy_cong[OF refl], rule assms(2)) (use that in simp)
  then show ?thesis
    unfolding assms(1) fn_def lParenthesis_def
    by (auto split: option.splits dest!: word_shorter text_p_le)
qed

lemma alt_cong [fundef_cong]:
  assumes "s = t" and "p t = p' t" and "p' t = None \<Longrightarrow> q t = q' t"
  shows "alt p q s = alt p' q' t"
  using assms by (auto simp: alt_def split: option.splits)

text \<open>\<open>value\<close>: ordered choice of object, array, string, number, \<open>null\<close>, \<open>true\<close>, \<open>false\<close>,
  function call and named constant, after leading whitespace.\<close>

function value_p :: "jvalue parser" where
  "value_p s =
     alt (object value_p)
       (alt (array value_p)
          (alt atom
             (alt (fn value_p) (map_p VStr constants)))) (whitespace s)"
  by pat_completeness auto
termination
  by (relation "measure length") (auto intro: less_le_trans[OF _ whitespace_le])

declare value_p.simps [simp del]

lemma alt_le:
  assumes "alt p q s = Some (v, r)"
    and "\<And>v r. p s = Some (v, r) \<Longrightarrow> P r" and "\<And>v r. q s = Some (v, r) \<Longrightarrow> P r"
  shows "P r"
  using assms by (auto simp: alt_def split: option.splits)

lemma map_p_rest: "map_p f p s = Some (v, r) \<Longrightarrow> \<exists>u. p s = Some (u, r)"
  by (auto simp: map_p_def split: option.splits)

lemma number_p_shorter: "number_p s = Some (v, r) \<Longrightarrow> length r < length s"
proof -
  assume a: "number_p s = Some (v, r)"
  have ip: "int_part t = Some (x, u) \<Longrightarrow> length u < length t" for t x u
    by (auto simp: int_part_def split: list.splits if_splits
        intro: le_less_trans[OF length_dropWhile_le])
  have fp: "frac_part t = (x, u) \<Longrightarrow> length u \<le> length t" for t x u
    by (auto simp: frac_part_def split: list.splits if_splits
        intro: le_trans[OF length_dropWhile_le])
  have ed: "exp_digits n t w = (x, u) \<Longrightarrow> length t \<le> length w \<Longrightarrow> length u \<le> length w" for n t w x u
    by (auto simp: exp_digits_def split: list.splits if_splits
        intro: le_trans[OF length_dropWhile_le])
  have ep: "exp_part t = (x, u) \<Longrightarrow> length u \<le> length t" for t x u
    by (auto simp: exp_part_def split: list.splits if_splits dest!: ed)
  from a obtain ip' r1 fp' r2 ex r3 where
    1: "int_part (if (case s of [] \<Rightarrow> False | c # r \<Rightarrow> c = CHR ''-'') then tl s else s) = Some (ip', r1)"
    and 2: "frac_part r1 = (fp', r2)" and 3: "exp_part r2 = (ex, r3)" and 4: "r = after_token r3"
    by (auto simp: number_p_def Let_def split: option.splits prod.splits)
  have "length r1 < length s" using ip[OF 1] by (auto split: if_splits)
  then show ?thesis using fp[OF 2] ep[OF 3] 4 after_token_le[of r3] by simp
qed

lemma atom_shorter: "atom s = Some (v, r) \<Longrightarrow> length r < length s"
  unfolding atom_def
  by (elim alt_le; drule map_p_rest) (auto dest: string_p_shorter number_p_shorter word_shorter)

lemma constants_shorter: "constants s = Some (v, r) \<Longrightarrow> length r < length s"
  unfolding constants_def by (elim alt_le) (auto dest: word_shorter)

lemma object_shorter: "object vp s = Some (v, r) \<Longrightarrow> length r < length s"
  unfolding object_def lbrace_def rbrace_def
  by (auto split: option.splits prod.splits dest!: word_shorter sepBy_le word_le)

lemma array_shorter: "array vp s = Some (v, r) \<Longrightarrow> length r < length s"
  unfolding array_def lbracket_def rbracket_def lParenthesis_def rParenthesis_def
  by (auto split: option.splits prod.splits dest!: alt_word_shorter sepBy_le)

lemma fn_shorter: "fn vp s = Some (v, r) \<Longrightarrow> length r < length s"
  unfolding fn_def lParenthesis_def rParenthesis_def
  by (auto split: option.splits prod.splits dest!: word_shorter sepBy_le word_le text_p_le)

lemma value_p_shorter: "value_p s = Some (v, r) \<Longrightarrow> length r < length s"
proof -
  assume "value_p s = Some (v, r)"
  then have "length r < length (whitespace s)"
    unfolding value_p.simps[of s]
    by (elim alt_le) (auto dest: object_shorter array_shorter atom_shorter fn_shorter
        constants_shorter dest!: map_p_rest)
  then show ?thesis using whitespace_le[of s] by simp
qed

text \<open>So the tests on the lengths in \<open>many\<close> and \<open>sepBy\<close> never fail.\<close>

lemma many_sep_then:
  assumes "\<And>x v r. p x = Some (v, r) \<Longrightarrow> length r \<le> length x" and "sep \<noteq> []"
  shows "many (sep_then (word sep) p) s =
           (case sep_then (word sep) p s of
              None \<Rightarrow> ([], s)
            | Some (v, r) \<Rightarrow> (case many (sep_then (word sep) p) r of (vs, r') \<Rightarrow> (v # vs, r')))"
proof (cases "sep_then (word sep) p s")
  case None
  then show ?thesis by (simp add: many.simps)
next
  case (Some a)
  obtain v r where a: "a = (v, r)" by (cases a)
  from Some a obtain x r0 where "word sep s = Some (x, r0)" "p r0 = Some (v, r)"
    by (auto simp: sep_then_def split: option.splits)
  then have "length r < length s"
    using word_shorter[OF _ assms(2)] assms(1) by fastforce
  then show ?thesis using Some a by (simp add: many.simps[of _ s])
qed

lemma sepBy_value:
  "sepBy value_p sep s =
     (case value_p s of
        None \<Rightarrow> ([], s)
      | Some (v, r) \<Rightarrow> (case many (sep_then sep value_p) r of (vs, r') \<Rightarrow> (v # vs, r')))"
  by (auto simp: sepBy_def split: option.splits dest: value_p_shorter)

section \<open>The statement grammar\<close>

datatype statement =
    Select select_ast
  | Fetch database_ref "condition list"
  | Create string string "condition list option"
  | GetConfig "condition list"
  | UpdateConfig

datatype parse_error = ParseError

text \<open>\<open>p.or(optional)\<close>.\<close>

definition opt :: "'a parser \<Rightarrow> string \<Rightarrow> 'a option \<times> string" where
  "opt p s = (case p s of None \<Rightarrow> (None, s) | Some (v, r) \<Rightarrow> (Some v, r))"

definition operator_p :: "string parser" where
  "operator_p =
     alt (word ''='') (alt (word ''>'') (alt (word ''>='') (alt (word ''<'') (alt (word ''<='')
       (alt (word ''in'') (word ''is''))))))"

definition databaseName :: "string parser" where
  "databaseName =
     alt (word ''tile38'') (alt (word ''metabase'') (alt (word ''url'') (alt (word ''t'')
       (alt (word ''m'') (word ''u'')))))"

definition asAlias :: "string \<Rightarrow> string option \<times> string" where
  "asAlias = opt (sep_then (word ''as'') text_p)"

definition key_p :: "key_ref parser" where
  "key_p s =
     (case opt (\<lambda>t. case text_p t of
                       None \<Rightarrow> None
                     | Some (a, r) \<Rightarrow> (case dot r of None \<Rightarrow> None | Some (x, r') \<Rightarrow> Some (a, r'))) s of
        (al, r1) \<Rightarrow>
          (case text_p r1 of
             None \<Rightarrow> None
           | Some (k, r2) \<Rightarrow> Some (\<lparr>kalias = al, key = k\<rparr>, r2)))"

definition pairCondition :: "condition parser" where
  "pairCondition s =
     (case key_p (token_comment s) of
        None \<Rightarrow> None
      | Some (l, r1) \<Rightarrow>
          (case operator_p r1 of
             None \<Rightarrow> None
           | Some (op, r2) \<Rightarrow>
               (case value_p r2 of
                  None \<Rightarrow> None
                | Some (v, r3) \<Rightarrow> Some (\<lparr>left = l, operator = op, right = v\<rparr>, r3))))"

definition where_p :: "condition list parser" where
  "where_p s =
     (case word ''where'' s of
        None \<Rightarrow> None
      | Some (x, r) \<Rightarrow> Some (sepBy pairCondition and_p r))"

definition joinCondition :: "join_condition parser" where
  "joinCondition s =
     (case key_p s of
        None \<Rightarrow> None
      | Some (l, r1) \<Rightarrow>
          (case word ''='' r1 of
             None \<Rightarrow> None
           | Some (x, r2) \<Rightarrow>
               (case key_p r2 of
                  None \<Rightarrow> None
                | Some (r, r3) \<Rightarrow> Some (\<lparr>jleft = l, jright = r\<rparr>, r3))))"

text \<open>\<open>join\<close>: the database name is matched and skipped.\<close>

definition join_p :: "join_condition parser" where
  "join_p s =
     (case word ''join'' s of
        None \<Rightarrow> None
      | Some (x, r1) \<Rightarrow>
          (case databaseName r1 of
             None \<Rightarrow> None
           | Some (db, r2) \<Rightarrow>
               (case word ''on'' r2 of
                  None \<Rightarrow> None
                | Some (y, r3) \<Rightarrow> joinCondition r3)))"

definition limit_p :: "rat parser" where
  "limit_p = sep_then (word ''limit'') number_p"

definition database_p :: "database_ref parser" where
  "database_p s =
     (case databaseName s of
        None \<Rightarrow> None
      | Some (n, r1) \<Rightarrow> (case asAlias r1 of (a, r2) \<Rightarrow> Some (\<lparr>name = n, dalias = a\<rparr>, r2)))"

definition select_p :: "select_ast parser" where
  "select_p s =
     (case word ''select'' (whitespace s) of
        None \<Rightarrow> None
      | Some (cmd, r1) \<Rightarrow>
          (case word ''*'' r1 of
             None \<Rightarrow> None
           | Some (x, r2) \<Rightarrow>
               (case word ''from'' r2 of
                  None \<Rightarrow> None
                | Some (y, r3) \<Rightarrow>
                    (case database_p r3 of
                       None \<Rightarrow> None
                     | Some (db, r4) \<Rightarrow>
                         (case opt join_p r4 of
                            (j, r5) \<Rightarrow>
                              (case opt where_p r5 of
                                 (w, r6) \<Rightarrow>
                                   (case opt limit_p r6 of
                                      (l, r7) \<Rightarrow>
                                        Some (\<lparr>command = cmd, database = db, join = j,
                                                wheres = w, limit = l\<rparr>,
                                              token_comment r7))))))))"

definition parameters :: "condition list parser" where
  "parameters s =
     (case lParenthesis s of
        None \<Rightarrow> None
      | Some (x, r1) \<Rightarrow>
          (case sepBy pairCondition comma r1 of
             (cs, r2) \<Rightarrow>
               (case rParenthesis r2 of None \<Rightarrow> None | Some (y, r3) \<Rightarrow> Some (cs, r3))))"

definition fetch_p :: "statement parser" where
  "fetch_p s =
     (case word ''fetch'' (whitespace s) of
        None \<Rightarrow> None
      | Some (cmd, r1) \<Rightarrow>
          (case database_p r1 of
             None \<Rightarrow> None
           | Some (db, r2) \<Rightarrow>
               (case parameters r2 of
                  None \<Rightarrow> None
                | Some (ps, r3) \<Rightarrow> Some (Fetch db ps, token_comment r3))))"

definition create_p :: "statement parser" where
  "create_p s =
     (case word ''create'' (whitespace s) of
        None \<Rightarrow> None
      | Some (cmd, r1) \<Rightarrow>
          (case text_p r1 of
             None \<Rightarrow> None
           | Some (ty, r2) \<Rightarrow>
               (case text_p r2 of
                  None \<Rightarrow> None
                | Some (nm, r3) \<Rightarrow>
                    (case opt parameters r3 of
                       (ps, r4) \<Rightarrow> Some (Create ty nm ps, token_comment r4)))))"

definition getConfig :: "statement parser" where
  "getConfig s =
     (case word ''get'' (whitespace s) of
        None \<Rightarrow> None
      | Some (cmd, r1) \<Rightarrow>
          (case word ''config'' r1 of
             None \<Rightarrow> None
           | Some (ty, r2) \<Rightarrow>
               (case parameters r2 of
                  None \<Rightarrow> None
                | Some (ps, r3) \<Rightarrow> Some (GetConfig ps, token_comment r3))))"

definition updateConfig :: "statement parser" where
  "updateConfig s =
     (case word ''update'' (whitespace s) of
        None \<Rightarrow> None
      | Some (cmd, r1) \<Rightarrow>
          (case word ''config'' r1 of
             None \<Rightarrow> None
           | Some (ty, r2) \<Rightarrow> Some (UpdateConfig, token_comment r2)))"

definition parser :: "statement parser" where
  "parser = alt fetch_p (alt (map_p Select select_p) (alt create_p (alt getConfig updateConfig)))"

text \<open>\<open>tryParse\<close>: the whole input must be consumed.\<close>

definition tryParse :: "string \<Rightarrow> parse_error + statement" where
  "tryParse s =
     (case parser s of
        None \<Rightarrow> Inl ParseError
      | Some (ast, r) \<Rightarrow> (if r = [] then Inr ast else Inl ParseError))"

text \<open>The repeated parsers of the statement grammar consume input as well.\<close>

lemma pair_shorter: "pair value_p s = Some (kv, r) \<Longrightarrow> length r < length s"
  unfolding pair_def colon_def
  by (auto split: option.splits dest!: string_p_shorter word_le value_p_shorter)

lemma key_p_le: "key_p s = Some (k, r) \<Longrightarrow> length r \<le> length s"
  unfolding key_p_def opt_def dot_def
  by (auto split: option.splits prod.splits dest!: text_p_le word_le)

lemma operator_p_shorter: "operator_p s = Some (x, r) \<Longrightarrow> length r < length s"
  unfolding operator_p_def by (elim alt_le) (auto dest: word_shorter)

lemma pairCondition_shorter: "pairCondition s = Some (c, r) \<Longrightarrow> length r < length s"
proof -
  assume "pairCondition s = Some (c, r)"
  then obtain l r1 x r2 v where "key_p (token_comment s) = Some (l, r1)"
    "operator_p r1 = Some (x, r2)" "value_p r2 = Some (v, r)"
    by (auto simp: pairCondition_def split: option.splits)
  then show ?thesis
    using key_p_le operator_p_shorter value_p_shorter token_comment_le[of s]
    by (metis le_trans less_imp_le_nat not_le)
qed

section \<open>Notions used in the properties\<close>

text \<open>The calls of \<open>w1\<close> are those of \<open>w\<close> followed by area lookups only.\<close>

definition lookups_from :: "world \<Rightarrow> world \<Rightarrow> bool" where
  "lookups_from w w1 = (\<exists>xs. calls w1 = calls w @ xs \<and> (\<forall>c \<in> set xs. \<exists>q. c = AdminQuery q))"

text \<open>A condition that the loop hands to the spatial branch.\<close>

definition spatial_condition :: "string \<Rightarrow> condition \<Rightarrow> bool" where
  "spatial_condition dbName c =
     (resolve_alias dbName c = ''t'' \<or> resolve_alias dbName c = ''tile38''
      \<or> key (left c) \<in> set tile38FnKeys)"

text \<open>The clauses that one condition of the where-list contributes: what the spatial branch
  appends to an empty builder.\<close>

definition clauses_of :: "env \<Rightarrow> (string \<Rightarrow> jvalue option) option \<Rightarrow> string \<Rightarrow> condition
    \<Rightarrow> string list" where
  "clauses_of e services dbName c =
     (if spatial_condition dbName c \<and> key (left c) \<notin> set tile38FnKeys then
        (case field_condition e services c initial_tile38Query of
           Inl err \<Rightarrow> []
         | Inr (tq, continued) \<Rightarrow> conditions tq)
      else [])"

text \<open>The spatial-function keys of a where-list, and the values of its spatial \<open>id\<close>
  conditions, both in source order.\<close>

definition verbs :: "condition list \<Rightarrow> string list" where
  "verbs cs = filter (\<lambda>k. k \<in> set tile38FnKeys) (map (\<lambda>c. key (left c)) cs)"

definition target_ids :: "string \<Rightarrow> condition list \<Rightarrow> jvalue list" where
  "target_ids dbName cs =
     map right (filter (\<lambda>c. spatial_condition dbName c \<and> key (left c) = ''id'') cs)"

definition last_opt :: "'a list \<Rightarrow> 'a option" where
  "last_opt xs = (if xs = [] then None else Some (last xs))"

text \<open>The head of the builder with the given verb slot and target slot: an unset verb
  before a set target is a hole.\<close>

fun slots :: "'a option \<Rightarrow> 'a option option \<Rightarrow> 'a option list" where
  "slots None None = []"
| "slots (Some v) None = [Some v]"
| "slots a (Some t) = [a, t]"

text \<open>A character a string literal holds as it is: no quote, no backslash, no line
  terminator.\<close>

definition plain_char :: "char \<Rightarrow> bool" where
  "plain_char c = (\<not> is_quote c \<and> c \<noteq> CHR 0x5C \<and> \<not> is_line_end c)"

text \<open>The names \<open>databaseName\<close> accepts, in the order it tries them.\<close>

definition database_names :: "string list" where
  "database_names = [''tile38'', ''metabase'', ''url'', ''t'', ''m'', ''u'']"

text \<open>The first members of the \<open>select\<close> sequence, up to the database reference.\<close>

definition select_from :: "(string \<times> database_ref) parser" where
  "select_from s =
     (case word ''select'' (whitespace s) of
        None \<Rightarrow> None
      | Some (cmd, r1) \<Rightarrow>
          (case word ''*'' r1 of
             None \<Rightarrow> None
           | Some (x, r2) \<Rightarrow>
               (case word ''from'' r2 of
                  None \<Rightarrow> None
                | Some (y, r3) \<Rightarrow>
                    (case database_p r3 of
                       None \<Rightarrow> None
                     | Some (db, r4) \<Rightarrow> Some ((cmd, db), r4)))))"

text \<open>In the statement \<open>A @ N @ R\<close> the \<open>join\<close> clause names its database at \<open>N\<close>: the parse
  of \<open>select * from\<close>, the database reference and the word \<open>join\<close> stops before \<open>N @ R\<close>, and
  \<open>databaseName\<close> matches \<open>N\<close> there.\<close>

definition join_name_at :: "string \<Rightarrow> string \<Rightarrow> string \<Rightarrow> bool" where
  "join_name_at A N R =
     (case select_from (A @ N @ R) of
        None \<Rightarrow> False
      | Some (h, r4) \<Rightarrow>
          (case word ''join'' r4 of
             None \<Rightarrow> False
           | Some (x, r1) \<Rightarrow>
               token_comment r1 = N @ R \<and> databaseName r1 = Some (N, after_token R)))"

text \<open>A text that begins with the first letter of a database name.\<close>

definition letter_start :: "string \<Rightarrow> bool" where
  "letter_start X = (case X of [] \<Rightarrow> False | c # r \<Rightarrow> c \<in> set ''tmu'')"

section \<open>Example statements and collaborators\<close>

definition empty_level :: cache_level where
  "empty_level = \<lparr>stored = (\<lambda>k. None), inherited = None\<rparr>"

definition empty_world :: world where
  "empty_world = \<lparr>calls = [], admin2 = empty_level, admin3 = empty_level, admin4 = empty_level\<rparr>"

definition no_services :: "(string \<Rightarrow> jvalue option) option" where
  "no_services = Some (\<lambda>k. None)"

text \<open>An environment for the examples, which hold safe integers, plain objects and ASCII
  strings only: the registry is empty, an area lookup finds nothing, the record service has
  no rows and the registration call answers with the key \<open>k1\<close>.\<close>

definition demo_env :: env where
  "demo_env = \<lparr>number_string = plain_number,
                pred_string = (\<lambda>r. plain_number (r - 1)),
                number_truthy = (\<lambda>r. r \<noteq> 0),
                object_string = (\<lambda>v. Inr ''[object Object]''),
                length_index = (\<lambda>v. Inr None),
                object_spread = (\<lambda>v. Inl TypeError),
                object_map = (\<lambda>v. Inl TypeError),
                upper_case = upper_ascii,
                services_reply = Inr no_services,
                admin_reply = (\<lambda>q. Inr None),
                metabase_reply = (\<lambda>p. Inr (VArr [])),
                add_reply = (\<lambda>u i g. Inr (Some (VStr ''k1''))),
                tile38_reply = (\<lambda>q f. Inr ()),
                stringify = (\<lambda>p. [])\<rparr>"

definition cond :: "string option \<Rightarrow> string \<Rightarrow> string \<Rightarrow> jvalue \<Rightarrow> condition" where
  "cond a k op v = \<lparr>left = \<lparr>kalias = a, key = k\<rparr>, operator = op, right = v\<rparr>"

definition select_of :: "string \<Rightarrow> join_condition option \<Rightarrow> condition list option \<Rightarrow> rat option \<Rightarrow> select_ast" where
  "select_of db j ws l =
     \<lparr>command = ''select'', database = \<lparr>name = db, dalias = None\<rparr>, join = j, wheres = ws, limit = l\<rparr>"

definition cast_ast :: select_ast where
  "cast_ast = select_of ''m'' None (Some [cond None ''cast_to'' ''='' (VStr ''t'')]) None"

definition cast_join_ast :: select_ast where
  "cast_join_ast =
     select_of ''m'' (Some \<lparr>jleft = \<lparr>kalias = Some ''t'', key = ''id''\<rparr>,
                            jright = \<lparr>kalias = Some ''m'', key = ''order_id''\<rparr>\<rparr>)
       (Some [cond None ''cast_to'' ''='' (VStr ''t'')]) None"

definition nearby_conditions :: "condition list" where
  "nearby_conditions =
     [cond (Some ''t'') ''nearby'' ''in''
        (VObj [(''fnName'', VStr ''point''), (''arguments'', VArr [VStr ''current_points'', VNum 1000])]
           StdProto),
      cond (Some ''t'') ''id'' ''='' (VStr ''order-stop''),
      cond None ''age'' ''>='' (VNum 18)]"

definition nearby_ast :: select_ast where
  "nearby_ast = select_of ''t'' None (Some nearby_conditions) (Some 10)"

definition nearby_query :: tile38Query where
  "nearby_query =
     \<lparr>head = [Some (VStr ''nearby''), Some (VStr ''order-stop'')],
      conditions = [''where age 17 +inf''],
      location = [Some (VStr ''point''), Some (VStr ''current_points''), Some (VNum 1000)],
      filter_obj = VObj [] StdProto\<rparr>"

definition join_select :: select_ast where
  "join_select =
     \<lparr>command = ''select'', database = \<lparr>name = ''m'', dalias = None\<rparr>,
      join = Some \<lparr>jleft = \<lparr>kalias = Some ''t'', key = ''id''\<rparr>,
                   jright = \<lparr>kalias = Some ''m'', key = ''order_id''\<rparr>\<rparr>,
      wheres = None, limit = None\<rparr>"

text \<open>Two comment lines, the second of which reads as the start of a function call, and
  one named constant.\<close>

definition commented_elements :: string where
  "commented_elements = '' --c1'' @ [CHR 0x0A] @ ''--g (1,'' @ [CHR 0x0A] @ '' current_bounds''"

section \<open>Properties of the semantic compiler\<close>

subsection \<open>What the condition loop issues\<close>

lemma issue_calls: "calls (issue c w) = calls w @ [c]"
  by (simp add: issue_def)

lemma lookups_refl: "lookups_from w w"
  by (simp add: lookups_from_def)

lemma lookups_trans: "lookups_from w w1 \<Longrightarrow> lookups_from w1 w2 \<Longrightarrow> lookups_from w w2"
  unfolding lookups_from_def by (metis Un_iff append.assoc set_append)

lemma lookups_issue: "lookups_from w (issue (AdminQuery q) w)"
  by (simp add: lookups_from_def issue_def)

lemma lookups_cache2: "lookups_from w w1 \<Longrightarrow> lookups_from w (w1\<lparr>admin2 := m\<rparr>)"
  by (simp add: lookups_from_def)
lemma lookups_cache3: "lookups_from w w1 \<Longrightarrow> lookups_from w (w1\<lparr>admin3 := m\<rparr>)"
  by (simp add: lookups_from_def)
lemma lookups_cache4: "lookups_from w w1 \<Longrightarrow> lookups_from w (w1\<lparr>admin4 := m\<rparr>)"
  by (simp add: lookups_from_def)

lemmas lk = lookups_refl lookups_issue lookups_cache2 lookups_cache3 lookups_cache4

lemma level2_lookups: "level2 e a0 w = (r, w1) \<Longrightarrow> lookups_from w w1"
  by (auto simp: level2_def Let_def lk split: if_splits option.splits sum.splits)

lemma level3_lookups: "level3 e a0 a1 ids w = (r, w1) \<Longrightarrow> lookups_from w w1"
  by (auto simp: level3_def Let_def lk split: if_splits option.splits sum.splits)

lemma level4_lookups: "level4 e a0 a1 a2 ids w = (r, w1) \<Longrightarrow> lookups_from w w1"
  by (auto simp: level4_def Let_def lk split: if_splits option.splits sum.splits)

lemma getAdminLevel_lookups: "getAdminLevel e areas w = (r, w1) \<Longrightarrow> lookups_from w w1"
  unfolding getAdminLevel_def
  by (auto split: sum.splits prod.splits intro: lk lookups_trans dest!: level2_lookups level3_lookups level4_lookups)

lemma fn_condition_lookups: "fn_condition e k v tq w = (r, w1) \<Longrightarrow> lookups_from w w1"
  unfolding fn_condition_def Let_def
  by (auto split: if_splits sum.splits prod.splits intro: lk dest!: getAdminLevel_lookups)

lemma condition_step_lookups: "condition_step e sv db c st w = (r, w1) \<Longrightarrow> lookups_from w w1"
  unfolding condition_step_def Let_def
  by (auto split: if_splits sum.splits prod.splits intro: lk dest!: fn_condition_lookups)

lemma conditions_loop_lookups: "conditions_loop e sv db cs st w = (r, w1) \<Longrightarrow> lookups_from w w1"
proof (induction cs arbitrary: st w)
  case Nil
  then show ?case by (simp add: lk)
next
  case (Cons c cs)
  then show ?case
    by (auto split: sum.splits prod.splits dest!: condition_step_lookups intro: lookups_trans)
qed

lemma obj_get_delete: "k \<noteq> k' \<Longrightarrow> obj_get (obj_delete ob k') k = obj_get ob k"
proof -
  have "k \<noteq> k' \<Longrightarrow> map_of (filter (\<lambda>kv. fst kv \<noteq> k') kvs) k = map_of kvs k" for kvs :: "(string \<times> jvalue) list"
    by (induction kvs) auto
  then show "k \<noteq> k' \<Longrightarrow> obj_get (obj_delete ob k') k = obj_get ob k"
    by (simp add: obj_get_def obj_delete_def)
qed

lemma join_part_frame:
  "join_part e j (tq, mq) w = (Inr (tq', mq'), w') \<Longrightarrow>
     mq' = mq \<and> calls w' = calls w @ (case j of None \<Rightarrow> [] | Some jc \<Rightarrow> [MetabaseCard mq])"
  unfolding join_part_def Let_def
  by (auto split: option.splits sum.splits simp: issue_calls)

lemma cast_part_missing:
  assumes "obj_has mq ''cast_to''" "obj_get mq ''id_field'' = None \<or> obj_get mq ''geometry'' = None"
  shows "cast_part e (tq, mq) w =
           (Inl (Error (if \<not> opt_truthy e (obj_get mq ''id_field'') then ''missing id_field field''
                        else ''missing geometry field'')), w)"
  using assms unfolding cast_part_def Let_def opt_truthy_def
  by (auto simp: obj_get_delete split: option.splits)


subsection \<open>The registration side channel\<close>

text \<open>
  Claim C1, as amended.  When the registry fetch, the condition loop and the join
  resolution have completed and the parameter map holds \<open>cast_to\<close> but no \<open>id_field\<close> or
  no \<open>geometry\<close> (own or inherited), \<open>parseSelect\<close> ends with no output in the error
  \<open>missing id_field field\<close> when \<open>id_field\<close> is absent or falsy, else in
  \<open>missing geometry field\<close>.  No registration call and no final query is issued: the
  calls made are the registry fetch, then the area lookups of the loop, then, exactly
  when the statement has a join, the record-service query of the join.
\<close>

theorem cast_to_missing_companion:
  assumes "wheres ast = Some cs" and "services_reply e = Inr sv"
    and "conditions_loop e sv (name (database ast)) cs (initial_tile38Query, empty_object)
           (issue GetServices w) = (Inr st1, w1)"
    and "join_part e (join ast) st1 w1 = (Inr (tq, mq), w2)"
    and "obj_has mq ''cast_to''"
    and "obj_get mq ''id_field'' = None \<or> obj_get mq ''geometry'' = None"
  shows "parseSelect e ast w =
           (Inl (Error (if \<not> opt_truthy e (obj_get mq ''id_field'') then ''missing id_field field''
                        else ''missing geometry field'')), w2)
         \<and> (\<exists>xs. calls w2 = calls w @ [GetServices] @ xs
                      @ (case join ast of None \<Rightarrow> [] | Some jc \<Rightarrow> [MetabaseCard mq])
                \<and> (\<forall>c \<in> set xs. \<exists>q. c = AdminQuery q))"
proof -
  have m: "cast_part e (tq, mq) w2 =
             (Inl (Error (if \<not> opt_truthy e (obj_get mq ''id_field'') then ''missing id_field field''
                          else ''missing geometry field'')), w2)"
    by (rule cast_part_missing[OF assms(5,6)])
  have p: "parseSelect e ast w =
             (Inl (Error (if \<not> opt_truthy e (obj_get mq ''id_field'') then ''missing id_field field''
                          else ''missing geometry field'')), w2)"
    using assms(1-4) m by (simp add: parseSelect_def build_def Let_def)
  from conditions_loop_lookups[OF assms(3)]
  obtain xs where xs: "calls w1 = calls (issue GetServices w) @ xs" "\<forall>c \<in> set xs. \<exists>q. c = AdminQuery q"
    unfolding lookups_from_def by blast
  obtain tq1 mq1 where st1: "st1 = (tq1, mq1)" by (cases st1)
  from join_part_frame[OF assms(4)[unfolded st1]]
  have ys: "calls w2 = calls w1 @ (case join ast of None \<Rightarrow> [] | Some jc \<Rightarrow> [MetabaseCard mq])"
    by auto
  have "calls w2 = calls w @ [GetServices] @ xs
          @ (case join ast of None \<Rightarrow> [] | Some jc \<Rightarrow> [MetabaseCard mq])"
    using xs(1) ys by (simp add: issue_calls)
  then show ?thesis using p xs(2) by blast
qed

lemmas ev = parseSelect_def build_def dispatch_def cast_part_def join_part_def join_ids_def row_id_def
  condition_step_def metabase_condition_def field_condition_def fn_condition_def resolve_alias_def
  tile38FnKeys_def initial_tile38Query_def issue_def obj_has_def obj_get_def obj_delete_def obj_set_def
  empty_object_def empty_world_def empty_level_def demo_env_def no_services_def cond_def select_of_def
  Let_def command_string_def limit_text_def range_clause_def opt_truthy_def

lemmas num_ev = number_text_def pred_text_def safe_integer_def plain_number_def show_nat.simps
  digit_char_def

theorem cast_to_missing_companion_witness:
  "parseSelect demo_env cast_ast empty_world
     = (Inl (Error ''missing id_field field''), issue GetServices empty_world)
   \<and> (\<exists>xs. calls (issue GetServices empty_world) = calls empty_world @ [GetServices] @ xs @ []
          \<and> (\<forall>c \<in> set xs. \<exists>q. c = AdminQuery q))"
proof -
  have 1: "wheres cast_ast = Some [cond None ''cast_to'' ''='' (VStr ''t'')]"
    by (simp add: cast_ast_def select_of_def)
  have 2: "services_reply demo_env = Inr no_services"
    by (simp add: demo_env_def)
  have 3: "conditions_loop demo_env no_services (name (database cast_ast))
             [cond None ''cast_to'' ''='' (VStr ''t'')] (initial_tile38Query, empty_object)
             (issue GetServices empty_world)
           = (Inr (initial_tile38Query, ([(''cast_to'', VStr ''t'')], StdProto)),
              issue GetServices empty_world)"
    by (simp add: ev cast_ast_def)
  have 4: "join_part demo_env (join cast_ast) (initial_tile38Query, ([(''cast_to'', VStr ''t'')], StdProto))
             (issue GetServices empty_world)
           = (Inr (initial_tile38Query, ([(''cast_to'', VStr ''t'')], StdProto)),
              issue GetServices empty_world)"
    by (simp add: join_part_def cast_ast_def select_of_def)
  have 5: "obj_has ([(''cast_to'', VStr ''t'')], StdProto) ''cast_to''"
    by (simp add: obj_has_def obj_get_def)
  have 6: "obj_get ([(''cast_to'', VStr ''t'')], StdProto) ''id_field'' = None
           \<or> obj_get ([(''cast_to'', VStr ''t'')], StdProto) ''geometry'' = None"
    by (simp add: obj_get_def)
  show ?thesis
    using cast_to_missing_companion[OF 1 2 3 4 5 6]
    by (simp add: obj_get_def opt_truthy_def cast_ast_def select_of_def)
qed

text \<open>
  Claim C1 as stated fails: for \<open>select * from m join t on t.id = m.order_id where
  cast_to = 't'\<close> the error is raised after the registry fetch and the record-service
  query of the join have been issued.
\<close>

theorem cast_to_failure_after_calls_counterexample:
  "conditions_loop demo_env no_services (name (database cast_join_ast))
      [cond None ''cast_to'' ''='' (VStr ''t'')] (initial_tile38Query, empty_object)
      (issue GetServices empty_world)
     = (Inr (initial_tile38Query, ([(''cast_to'', VStr ''t'')], StdProto)), issue GetServices empty_world)
   \<and> obj_has ([(''cast_to'', VStr ''t'')], StdProto) ''cast_to''
   \<and> obj_get ([(''cast_to'', VStr ''t'')], StdProto) ''id_field'' = None
   \<and> parseSelect demo_env cast_join_ast empty_world
       = (Inl (Error ''missing id_field field''),
          empty_world\<lparr>calls := [GetServices, MetabaseCard ([(''cast_to'', VStr ''t'')], StdProto)]\<rparr>)
   \<and> calls (snd (parseSelect demo_env cast_join_ast empty_world)) \<noteq> calls empty_world"
  by (simp add: ev cast_join_ast_def)

subsection \<open>Record-service conditions\<close>






subsection \<open>Numeric range clauses\<close>

text \<open>
  Claim C3.  A spatial-engine condition on a key that is no spatial-function key and none
  of \<open>id\<close>, \<open>status\<close>, \<open>service\<close>, with a number \<open>v\<close> on the right, appends one clause chosen
  by the operator: \<open>=\<close> gives the bounds \<open>v v\<close>, \<open>>\<close> gives \<open>v +inf\<close>, \<open>>=\<close> gives \<open>v-1 +inf\<close>,
  \<open><\<close> gives \<open>-inf v\<close> and \<open><=\<close> gives \<open>-inf v-1\<close>; any other operator appends nothing.  The
  parameter map is untouched.  For a safe integer the bounds are the decimal digits of \<open>v\<close>
  and of \<open>v - 1\<close>; for any other number they are the texts the runtime prints for the number
  and for the number minus one.  The witness is \<open>age >= 18\<close>, compiled to
  \<open>where age 17 +inf\<close>.
\<close>

theorem numeric_range_clause:
  assumes "resolve_alias dbName c = ''t'' \<or> resolve_alias dbName c = ''tile38''"
    and "key (left c) \<notin> set (tile38FnKeys @ [''id'', ''status'', ''service''])"
    and "right c = VNum v"
  shows "condition_step e sv dbName c (tq, mq) w =
           (Inr ((if key (left c) = ''filter'' then tq\<lparr>filter_obj := VNum v\<rparr> else tq)
                   \<lparr>conditions := conditions tq @
                   (if operator c = ''='' then
                      [''where '' @ key (left c) @ '' '' @ number_text e v @ '' '' @ number_text e v]
                    else if operator c = ''>'' then
                      [''where '' @ key (left c) @ '' '' @ number_text e v @ '' +inf'']
                    else if operator c = ''>='' then
                      [''where '' @ key (left c) @ '' '' @ pred_text e v @ '' +inf'']
                    else if operator c = ''<'' then
                      [''where '' @ key (left c) @ '' -inf '' @ number_text e v]
                    else if operator c = ''<='' then
                      [''where '' @ key (left c) @ '' -inf '' @ pred_text e v]
                    else [])\<rparr>, mq), w)
         \<and> (safe_integer v \<longrightarrow> number_text e v = plain_number v \<and> pred_text e v = plain_number (v - 1))"
  using assms
  by (auto simp: condition_step_def field_condition_def metabase_condition_def range_clause_def Let_def
        number_text_def pred_text_def)

theorem numeric_range_clause_witness:
  "condition_step demo_env no_services ''t'' (cond None ''age'' ''>='' (VNum 18))
       (initial_tile38Query, empty_object) empty_world
     = (Inr (initial_tile38Query\<lparr>conditions := [''where age 17 +inf'']\<rparr>, empty_object), empty_world)"
  using numeric_range_clause[of "''t''" "cond None ''age'' ''>='' (VNum 18)" 18 demo_env no_services
      initial_tile38Query empty_object empty_world]
  by (simp add: resolve_alias_def cond_def tile38FnKeys_def initial_tile38Query_def demo_env_def num_ev)

subsection \<open>A statement without conditions\<close>

text \<open>
  Claim C10.  With \<open>where\<close> null, \<open>parseSelect\<close> returns at once: the world, and with it
  the list of issued calls and the cache, is unchanged, whatever the database, join and
  limit are.
\<close>

theorem null_where_no_effect: "parseSelect e (ast\<lparr>wheres := None\<rparr>) w = (Inr (), w)"
  by (simp add: parseSelect_def)

theorem null_where_no_effect_witness:
  "parseSelect demo_env ((select_of ''t'' None (Some []) (Some 10))\<lparr>wheres := None\<rparr>) empty_world
     = (Inr (), empty_world)"
  by (rule null_where_no_effect)

subsection \<open>The final dispatch to the spatial engine\<close>

lemma collect_append:
  "collect (xs @ ys) =
     (case collect xs of
        Inl err \<Rightarrow> Inl err
      | Inr a \<Rightarrow> (case collect ys of Inl err \<Rightarrow> Inl err | Inr b \<Rightarrow> Inr (a @ b)))"
  by (induction xs) (auto split: sum.splits)

lemma collect_Inr: "collect (map Inr xs) = Inr xs"
  by (induction xs) auto

lemma command_string_parts:
  assumes "command_string e tq lmt = Inr q"
  shows "\<exists>hs ls. collect (map (join_elem e) (head tq)) = Inr hs
           \<and> collect (map (join_elem e) (location tq)) = Inr ls
           \<and> q = joinStr '' '' (hs @ conditions tq @ [''limit'', limit_text e lmt] @ ls)"
  using assms unfolding command_string_def
  by (auto simp: collect_append collect_Inr split: sum.splits)

lemma set0_slots: "set0 (slots a b) (Some v) = slots (Some v) b"
  by (cases "(a, b)" rule: slots.cases) auto

lemma set1_slots: "set1 (slots a b) t = slots a (Some t)"
  by (cases "(a, b)" rule: slots.cases) auto

lemma fn_condition_frame:
  "fn_condition e k v tq w = (Inr tq', w') \<Longrightarrow>
     conditions tq' = conditions tq \<and> head tq' = set0 (head tq) (Some (VStr k))"
  unfolding fn_condition_def Let_def
  by (auto split: if_splits sum.splits prod.splits)

lemma field_condition_frame:
  assumes "field_condition e sv c tq = Inr (tq', b)"
  shows "(\<exists>tq0. field_condition e sv c initial_tile38Query = Inr (tq0, b)
             \<and> conditions tq' = conditions tq @ conditions tq0)
         \<and> head tq' = (if key (left c) = ''id'' then set1 (head tq) (Some (right c)) else head tq)"
  using assms unfolding field_condition_def Let_def initial_tile38Query_def
  by (auto split: if_splits sum.splits jvalue.splits)

lemma condition_step_frame:
  assumes "condition_step e sv db c (tq, mq) w = (Inr (tq', mq'), w')"
  shows "conditions tq' = conditions tq @ clauses_of e sv db c
         \<and> head tq' =
             (if key (left c) \<in> set tile38FnKeys then set0 (head tq) (Some (VStr (key (left c))))
              else if spatial_condition db c \<and> key (left c) = ''id'' then set1 (head tq) (Some (right c))
              else head tq)"
proof (cases "key (left c) \<in> set tile38FnKeys")
  case True
  then show ?thesis
    using assms fn_condition_frame
    by (fastforce simp: condition_step_def Let_def clauses_of_def split: sum.splits prod.splits)
next
  case False
  show ?thesis
  proof (cases "spatial_condition db c")
    case True
    then obtain tq1 b where f: "field_condition e sv c tq = Inr (tq1, b)" and t: "tq' = tq1"
      using assms False
      by (auto simp: condition_step_def Let_def spatial_condition_def split: sum.splits if_splits)
    from field_condition_frame[OF f] show ?thesis
      using True False t by (auto simp: clauses_of_def)
  next
    case nsp: False
    then show ?thesis
      using assms False
      by (auto simp: condition_step_def Let_def spatial_condition_def clauses_of_def)
  qed
qed

lemma last_opt_Cons: "last_opt (x # xs) = (case last_opt xs of None \<Rightarrow> Some x | Some y \<Rightarrow> Some y)"
  by (simp add: last_opt_def)

lemma conditions_loop_frame:
  "conditions_loop e sv db cs (tq, mq) w = (Inr (tq', mq'), w') \<Longrightarrow> head tq = slots a b \<Longrightarrow>
     conditions tq' = conditions tq @ concat (map (clauses_of e sv db) cs)
     \<and> head tq' = slots (case last_opt (verbs cs) of None \<Rightarrow> a | Some k \<Rightarrow> Some (VStr k))
                     (case last_opt (target_ids db cs) of None \<Rightarrow> b | Some v \<Rightarrow> Some (Some v))"
proof (induction cs arbitrary: tq mq w a b)
  case Nil
  then show ?case by (simp add: last_opt_def verbs_def target_ids_def)
next
  case (Cons c cs)
  from Cons.prems(1) obtain tq1 mq1 w1 where
    s: "condition_step e sv db c (tq, mq) w = (Inr (tq1, mq1), w1)"
    and l: "conditions_loop e sv db cs (tq1, mq1) w1 = (Inr (tq', mq'), w')"
    by (auto split: sum.splits prod.splits)
  note f = condition_step_frame[OF s]
  have idk: "''id'' \<notin> set tile38FnKeys" by (simp add: tile38FnKeys_def)
  show ?case
  proof (cases "key (left c) \<in> set tile38FnKeys")
    case True
    then have h: "head tq1 = slots (Some (VStr (key (left c)))) b"
      using f Cons.prems(2) by (simp add: set0_slots)
    have nid: "key (left c) \<noteq> ''id''" using True idk by auto
    from Cons.IH[OF l h] show ?thesis
      using f True nid
      by (auto simp: verbs_def target_ids_def last_opt_Cons split: option.splits)
  next
    case False
    show ?thesis
    proof (cases "spatial_condition db c \<and> key (left c) = ''id''")
      case True
      then have h: "head tq1 = slots a (Some (Some (right c)))"
        using f False Cons.prems(2) by (simp add: set1_slots)
      from Cons.IH[OF l h] show ?thesis
        using f True False
        by (auto simp: verbs_def target_ids_def last_opt_Cons split: option.splits)
    next
      case nt: False
      then have h: "head tq1 = slots a b"
        using f False Cons.prems(2) by auto
      from Cons.IH[OF l h] show ?thesis
        using f nt False
        by (auto simp: verbs_def target_ids_def last_opt_Cons split: option.splits)
    qed
  qed
qed

lemma join_part_builder:
  "join_part e j (tq, mq) w = (Inr (tq', mq'), w') \<Longrightarrow>
     head tq' = head tq \<and> location tq' = location tq \<and> filter_obj tq' = filter_obj tq \<and> mq' = mq
     \<and> (\<exists>jc. conditions tq' = conditions tq @ jc
              \<and> (case j of None \<Rightarrow> jc = [] | Some x \<Rightarrow> length jc = 1))"
  unfolding join_part_def Let_def by (auto split: option.splits sum.splits)

lemma cast_part_builder:
  assumes "cast_part e (tq, mq) w = (Inr (tq', mq'), w')"
  shows "conditions tq' = conditions tq \<and> location tq' = location tq \<and> filter_obj tq' = filter_obj tq
     \<and> (if obj_has mq ''cast_to'' then
           \<exists>idf geo k. obj_get mq ''id_field'' = Some idf \<and> obj_get mq ''geometry'' = Some geo
              \<and> add_reply e (''https://ep.ahamove.com/bi/v1/metabase_card?'' @ stringify e mq') idf geo = Inr k
              \<and> head tq' = set1 (head tq) k
         else head tq' = head tq)"
  using assms unfolding cast_part_def Let_def
  by (auto split: option.splits sum.splits if_splits simp: obj_get_delete)

lemma nearby_loop:
  "conditions_loop demo_env no_services (name (database nearby_ast)) nearby_conditions
     (initial_tile38Query, empty_object) (issue GetServices empty_world)
     = (Inr (nearby_query, empty_object), issue GetServices empty_world)"
  by (simp add: ev nearby_ast_def nearby_conditions_def nearby_query_def num_ev)

text \<open>
  Claim C7.  When the condition loop, the join resolution and the registration have
  completed and the primary database name is \<open>t\<close> or \<open>tile38\<close>, the last call issued is the
  spatial query, and its filter object travels with it.  Its command string joins with a
  space, in this order: the head, the condition clauses, \<open>limit\<close> with the statement's limit
  or 100, and the location arguments.  The head is the verb, the key of the last
  spatial-function condition, then the target id, the key that the registration call
  answered, or without registration the value of the last spatial \<open>id\<close> condition.  The
  condition clauses are those of the conditions of the where-list, in the order of the
  list, followed by the clause of the join when there is one.  When a head or location
  value cannot be converted to a string, the compilation ends in that error and issues no
  query.
\<close>

theorem spatial_command_assembly:
  assumes "wheres ast = Some cs" and "services_reply e = Inr sv"
    and "conditions_loop e sv (name (database ast)) cs (initial_tile38Query, empty_object)
           (issue GetServices w) = (Inr (tq1, mq1), w1)"
    and "join_part e (join ast) (tq1, mq1) w1 = (Inr (tq2, mq2), w2)"
    and "cast_part e (tq2, mq2) w2 = (Inr (tq, mq), w3)"
    and "name (database ast) = ''t'' \<or> name (database ast) = ''tile38''"
  shows
    "(case command_string e tq (limit ast) of
        Inl err \<Rightarrow> parseSelect e ast w = (Inl err, w3)
      | Inr q \<Rightarrow>
          snd (parseSelect e ast w) = issue (Tile38Query q (filter_obj tq)) w3
          \<and> (\<exists>hs ls. collect (map (join_elem e) (head tq)) = Inr hs
                 \<and> collect (map (join_elem e) (location tq)) = Inr ls
                 \<and> q = joinStr '' ''
                         (hs @ conditions tq
                          @ [''limit'', case limit ast of None \<Rightarrow> ''100'' | Some l \<Rightarrow> number_text e l]
                          @ ls)))
     \<and> (\<exists>t. head tq = slots (map_option VStr (last_opt (verbs cs))) t
            \<and> (if obj_has mq1 ''cast_to'' then
                  \<exists>idf geo k. obj_get mq1 ''id_field'' = Some idf \<and> obj_get mq1 ''geometry'' = Some geo
                    \<and> add_reply e (''https://ep.ahamove.com/bi/v1/metabase_card?'' @ stringify e mq)
                         idf geo = Inr k
                    \<and> t = Some k
                else t = map_option Some (last_opt (target_ids (name (database ast)) cs))))
     \<and> (\<exists>jc. conditions tq = concat (map (clauses_of e sv (name (database ast))) cs) @ jc
             \<and> (case join ast of None \<Rightarrow> jc = [] | Some x \<Rightarrow> length jc = 1))
     \<and> location tq = location tq1 \<and> filter_obj tq = filter_obj tq1"
proof -
  have b: "build e ast cs w = (Inr (tq, mq), w3)"
    using assms(2-5) by (simp add: build_def Let_def)
  have A: "(case command_string e tq (limit ast) of
        Inl err \<Rightarrow> parseSelect e ast w = (Inl err, w3)
      | Inr q \<Rightarrow>
          snd (parseSelect e ast w) = issue (Tile38Query q (filter_obj tq)) w3
          \<and> (\<exists>hs ls. collect (map (join_elem e) (head tq)) = Inr hs
                 \<and> collect (map (join_elem e) (location tq)) = Inr ls
                 \<and> q = joinStr '' ''
                         (hs @ conditions tq
                          @ [''limit'', case limit ast of None \<Rightarrow> ''100'' | Some l \<Rightarrow> number_text e l]
                          @ ls)))"
  proof (cases "command_string e tq (limit ast)")
    case (Inl err)
    then show ?thesis
      using assms(1,6) b by (auto simp: parseSelect_def dispatch_def Let_def)
  next
    case (Inr q)
    have "snd (parseSelect e ast w) = issue (Tile38Query q (filter_obj tq)) w3"
      using assms(1,6) b Inr by (auto simp: parseSelect_def dispatch_def Let_def split: sum.splits)
    then show ?thesis
      using Inr command_string_parts[OF Inr] by (simp add: limit_text_def)
  qed
  have h0: "head initial_tile38Query = slots None None"
    by (simp add: initial_tile38Query_def)
  note L = conditions_loop_frame[OF assms(3) h0]
  note J = join_part_builder[OF assms(4)]
  note C = cast_part_builder[OF assms(5)]
  have hq: "head tq2 = slots (map_option VStr (last_opt (verbs cs)))
              (map_option Some (last_opt (target_ids (name (database ast)) cs)))"
    using L J by (auto split: option.splits)
  have B: "\<exists>t. head tq = slots (map_option VStr (last_opt (verbs cs))) t
            \<and> (if obj_has mq1 ''cast_to'' then
                  \<exists>idf geo k. obj_get mq1 ''id_field'' = Some idf \<and> obj_get mq1 ''geometry'' = Some geo
                    \<and> add_reply e (''https://ep.ahamove.com/bi/v1/metabase_card?'' @ stringify e mq)
                         idf geo = Inr k
                    \<and> t = Some k
                else t = map_option Some (last_opt (target_ids (name (database ast)) cs)))"
  proof (cases "obj_has mq1 ''cast_to''")
    case True
    then obtain idf geo k where k: "obj_get mq1 ''id_field'' = Some idf" "obj_get mq1 ''geometry'' = Some geo"
      "add_reply e (''https://ep.ahamove.com/bi/v1/metabase_card?'' @ stringify e mq) idf geo = Inr k"
      "head tq = set1 (head tq2) k"
      using C J by auto
    have "head tq = slots (map_option VStr (last_opt (verbs cs))) (Some k)"
      using k(4) hq by (simp add: set1_slots)
    then show ?thesis using True k(1-3) by auto
  next
    case False
    then have "head tq = head tq2" using C J by auto
    then show ?thesis using False hq by auto
  qed
  have Cc: "\<exists>jc. conditions tq = concat (map (clauses_of e sv (name (database ast))) cs) @ jc
             \<and> (case join ast of None \<Rightarrow> jc = [] | Some x \<Rightarrow> length jc = 1)"
    using L J C by (auto simp: initial_tile38Query_def)
  have D: "location tq = location tq1 \<and> filter_obj tq = filter_obj tq1"
    using J C by auto
  show ?thesis using A B Cc D by blast
qed

theorem spatial_command_assembly_witness:
  "snd (parseSelect demo_env nearby_ast empty_world) =
     empty_world\<lparr>calls :=
       [GetServices,
        Tile38Query ''nearby order-stop where age 17 +inf limit 10 point current_points 1000''
          (VObj [] StdProto)]\<rparr>"
proof -
  have 1: "wheres nearby_ast = Some nearby_conditions"
    by (simp add: nearby_ast_def select_of_def)
  have 2: "services_reply demo_env = Inr no_services"
    by (simp add: demo_env_def)
  have 4: "join_part demo_env (join nearby_ast) (nearby_query, empty_object) (issue GetServices empty_world)
             = (Inr (nearby_query, empty_object), issue GetServices empty_world)"
    by (simp add: join_part_def nearby_ast_def select_of_def)
  have 5: "cast_part demo_env (nearby_query, empty_object) (issue GetServices empty_world)
             = (Inr (nearby_query, empty_object), issue GetServices empty_world)"
    by (simp add: cast_part_def obj_has_def obj_get_def empty_object_def)
  have 6: "name (database nearby_ast) = ''t'' \<or> name (database nearby_ast) = ''tile38''"
    by (simp add: nearby_ast_def select_of_def)
  have q: "command_string demo_env nearby_query (limit nearby_ast)
             = Inr ''nearby order-stop where age 17 +inf limit 10 point current_points 1000''"
    by (simp add: command_string_def limit_text_def nearby_query_def nearby_ast_def select_of_def
          demo_env_def num_ev)
  from spatial_command_assembly[OF 1 2 nearby_loop 4 5 6]
  have "snd (parseSelect demo_env nearby_ast empty_world) =
          issue (Tile38Query ''nearby order-stop where age 17 +inf limit 10 point current_points 1000''
                   (filter_obj nearby_query)) (issue GetServices empty_world)"
    by (simp add: q)
  then show ?thesis
    by (simp add: nearby_query_def issue_def empty_world_def)
qed

section \<open>Properties of the grammar\<close>

lemmas lex_ev = word_def token_comment_def after_token_def whitespace_def is_space_def
  is_line_end_def is_quote_def string_p_def text_p_def is_ident_def number_p_def int_part_def
  frac_part_def exp_part_def exp_digits_def number_value_def digits_val_def hex_val_def is_digit_def
  Let_def

lemmas val_ev = value_p.simps many.simps sepBy_def sep_then_def alt_def map_p_def atom_def
  object_def make_object_def array_def fn_def pair_def constants_def
  lbrace_def rbrace_def lbracket_def rbracket_def lParenthesis_def rParenthesis_def comma_def colon_def

lemmas stmt_ev = tryParse_def parser_def fetch_p_def select_p_def create_p_def getConfig_def
  updateConfig_def parameters_def database_p_def limit_p_def join_p_def joinCondition_def
  where_p_def pairCondition_def key_p_def asAlias_def databaseName_def operator_p_def opt_def
  and_p_def dot_def


subsection \<open>String literals\<close>

lemma string_body_quote: "is_quote q \<Longrightarrow> string_body (q # r) = Some ([], r)"
  by (cases r) auto

lemma string_body_plain:
  "list_all plain_char x \<Longrightarrow> is_quote q \<Longrightarrow> string_body (x @ q # r) = Some (x, r)"
proof (induction x)
  case Nil
  then show ?case by (simp add: string_body_quote)
next
  case (Cons c x)
  obtain d t where dt: "x @ q # r = d # t" by (cases "x @ q # r") auto
  from Cons have "string_body (d # t) = Some (x, r)" by (simp add: dt)
  moreover from Cons(2) have "\<not> is_quote c" "c \<noteq> CHR 0x5C" "\<not> is_line_end c"
    by (auto simp: plain_char_def)
  ultimately show ?case by (simp add: dt)
qed

lemma interpretEscapes_plain: "list_all plain_char x \<Longrightarrow> interpretEscapes x = x"
  by (induction x rule: interpretEscapes.induct) (auto simp: plain_char_def)

text \<open>
  Claim C5.  The string grammar does not compare the two quote characters: a literal that
  opens with either quote and closes with either quote is accepted, and its result is the
  content between them.  The witness opens with a double quote and closes with a single
  quote.
\<close>

theorem mismatched_quotes_accepted:
  assumes "is_quote q1" and "is_quote q2" and "list_all plain_char x"
  shows "string_p (q1 # x @ q2 # r) = Some (x, after_token r)"
  using assms by (simp add: string_p_def string_body_plain interpretEscapes_plain)

theorem mismatched_quotes_accepted_witness:
  "string_p (CHR 0x22 # ''abc'' @ CHR 0x27 # []) = Some (''abc'', [])"
  using mismatched_quotes_accepted[of "CHR 0x22" "CHR 0x27" "''abc''" "[]"]
  by (simp add: is_quote_def plain_char_def is_line_end_def after_token_def whitespace_def)

text \<open>
  Claim C4.  \<open>interpretEscapes\<close> rewrites the first escape sequence only: in the literal
  \<open>'a\nb\nc'\<close> the first \<open>\n\<close> becomes a line feed and the second stays a backslash
  followed by \<open>n\<close>.
\<close>

theorem escapes_only_first_interpreted:
  "string_p ([CHR 0x27] @ ''a'' @ [CHR 0x5C] @ ''nb'' @ [CHR 0x5C] @ ''nc'' @ [CHR 0x27])
     = Some (''a'' @ [CHR 0x0A] @ ''b'' @ [CHR 0x5C] @ ''nc'', [])"
  by (simp add: lex_ev escape_char_def)

subsection \<open>The database name of a join clause\<close>

text \<open>The parsers before the name read the text from the left and stop before it, so
  they do the same on two texts that differ from the name on.\<close>

lemma whitespace_suffix: "suffix (whitespace s) s"
  by (simp add: whitespace_def suffix_dropWhile)

lemma comment_suffix: "suffix (comment s) s"
  by (cases s rule: comment.cases)
     (auto intro: suffix_ConsI suffix_dropWhile suffix_order.trans)

lemma after_token_suffix: "suffix (after_token s) s"
  unfolding after_token_def using comment_suffix whitespace_suffix suffix_order.trans by blast

lemma token_comment_suffix: "suffix (token_comment s) s"
  unfolding token_comment_def using comment_suffix after_token_suffix suffix_order.trans by blast

text \<open>A suffix of \<open>A @ X\<close> that has \<open>B @ X\<close> as a suffix ends in \<open>X\<close> itself.\<close>

lemma between:
  assumes "suffix T (A @ X)" and "suffix (B @ X) T"
  obtains C where "T = C @ X" and "suffix B C" and "suffix C A"
proof -
  from assms(2) obtain P where T: "T = P @ B @ X" by (auto simp: suffix_def)
  from assms(1) obtain Q where "A @ X = Q @ T" by (auto simp: suffix_def)
  with T have "A = Q @ P @ B" by simp
  then have "suffix (P @ B) A" by (simp add: suffix_def)
  with T show ?thesis using that[of "P @ B"] by (simp add: suffix_def)
qed

lemma suffix_too_long: "suffix (B @ X) T \<Longrightarrow> suffix T X \<Longrightarrow> B = [] \<and> T = X"
  by (metis append_Nil suffix_order.antisym suffix_appendI suffix_order.trans suffix_order.refl
      same_suffix_nil)

lemma dropWhile_local:
  assumes "dropWhile P (A @ X) = B @ X" and "B \<noteq> [] \<or> (X \<noteq> [] \<and> \<not> P (hd X) \<and> Y \<noteq> [] \<and> \<not> P (hd Y))"
  shows "dropWhile P (A @ Y) = B @ Y \<and> takeWhile P (A @ Y) = takeWhile P (A @ X)"
proof (cases "\<forall>a \<in> set A. P a")
  case True
  then have d: "dropWhile P (A @ X) = dropWhile P X" by (simp add: dropWhile_append2)
  have "suffix (B @ X) (dropWhile P X)" using assms(1) d by simp
  then have B: "B = []" and X: "dropWhile P X = X"
    using suffix_too_long[OF _ suffix_dropWhile] by auto
  with assms(2) have "Y \<noteq> []" "\<not> P (hd Y)" "X \<noteq> []" "\<not> P (hd X)" by auto
  then have "dropWhile P Y = Y" "takeWhile P Y = []" "takeWhile P X = []"
    by (cases Y; cases X; simp)+
  then show ?thesis using True B by (simp add: dropWhile_append2 takeWhile_append2)
next
  case False
  then obtain a where a: "a \<in> set A" "\<not> P a" by blast
  then have "dropWhile P (A @ X) = dropWhile P A @ X" by (simp add: dropWhile_append1)
  with assms(1) have "B = dropWhile P A" by simp
  then show ?thesis using a by (simp add: dropWhile_append1 takeWhile_append1)
qed

lemma whitespace_local:
  assumes "whitespace (A @ X) = B @ X" and "letter_start X" and "letter_start Y"
  shows "whitespace (A @ Y) = B @ Y"
proof -
  have "X \<noteq> [] \<and> \<not> is_space (hd X) \<and> Y \<noteq> [] \<and> \<not> is_space (hd Y)"
    using assms(2,3) by (auto simp: letter_start_def is_space_def split: list.splits)
  then show ?thesis
    using dropWhile_local[of is_space A X B Y] assms(1) by (simp add: whitespace_def)
qed

lemma comment_letter: "letter_start X \<Longrightarrow> comment X = X"
  by (cases X rule: comment.cases) (auto simp: letter_start_def)

lemma comment_local:
  assumes "comment (A @ X) = B @ X" and "letter_start X" and "letter_start Y"
  shows "comment (A @ Y) = B @ Y"
proof -
  from assms(2,3) obtain x X' y Y' where X: "X = x # X'" "x \<in> set ''tmu''"
    and Y: "Y = y # Y'" "y \<in> set ''tmu''"
    by (auto simp: letter_start_def split: list.splits)
  consider "A = []" | c where "A = [c]" | c d A' where "A = c # d # A'"
    by (cases A rule: comment.cases) auto
  then show ?thesis
  proof cases
    case 1
    then show ?thesis using assms comment_letter by auto
  next
    case 2
    then show ?thesis using assms(1) X Y by auto
  next
    case 3
    show ?thesis
    proof (cases "c = CHR ''-'' \<and> d = CHR ''-''")
      case True
      then have "dropWhile (\<lambda>x. \<not> is_line_end x) (A' @ X) = B @ X"
        using assms(1) 3 by simp
      moreover have "B \<noteq> []"
      proof
        assume "B = []"
        with calculation have e: "dropWhile (\<lambda>x. \<not> is_line_end x) (A' @ X) = X" by simp
        have "\<not> is_line_end x" using X(2) by (auto simp: is_line_end_def)
        then have "P x" if "P = (\<lambda>x. \<not> is_line_end x)" for P using that by simp
        show False
        proof (cases "\<forall>a \<in> set A'. \<not> is_line_end a")
          case True
          then have "dropWhile (\<lambda>x. \<not> is_line_end x) (A' @ X) = dropWhile (\<lambda>x. \<not> is_line_end x) X'"
            using X \<open>\<not> is_line_end x\<close> by (simp add: dropWhile_append2)
          with e have "suffix X X'" using suffix_dropWhile[of "\<lambda>x. \<not> is_line_end x" X'] by simp
          then show False using X(1) by (metis suffix_ConsD' suffix_order.antisym suffix_ConsI suffix_order.refl not_Cons_self2)
        next
          case False
          then obtain a where "a \<in> set A'" "\<not> \<not> is_line_end a" by blast
          then have "dropWhile (\<lambda>x. \<not> is_line_end x) (A' @ X) = dropWhile (\<lambda>x. \<not> is_line_end x) A' @ X"
            by (simp add: dropWhile_append1)
          moreover have "dropWhile (\<lambda>x. \<not> is_line_end x) A' \<noteq> []"
            using \<open>a \<in> set A'\<close> \<open>\<not> \<not> is_line_end a\<close> by (auto simp: dropWhile_eq_Nil_conv)
          ultimately show False using e by simp
        qed
      qed
      ultimately have "dropWhile (\<lambda>x. \<not> is_line_end x) (A' @ Y) = B @ Y"
        using dropWhile_local[of "\<lambda>x. \<not> is_line_end x" A' X B Y] by simp
      then show ?thesis using True 3 by simp
    next
      case False
      then show ?thesis using assms(1) 3 by auto
    qed
  qed
qed


lemma after_token_local:
  assumes "after_token (A @ X) = B @ X" and "letter_start X" and "letter_start Y"
  shows "after_token (A @ Y) = B @ Y"
proof -
  have "suffix (B @ X) (whitespace (A @ X))"
    using assms(1) comment_suffix[of "whitespace (A @ X)"] by (simp add: after_token_def)
  from between[OF whitespace_suffix this] obtain C where C: "whitespace (A @ X) = C @ X" by blast
  then have "whitespace (A @ Y) = C @ Y" using whitespace_local assms(2,3) by blast
  moreover have "comment (C @ Y) = B @ Y"
    using comment_local[OF _ assms(2,3)] assms(1) C by (simp add: after_token_def)
  ultimately show ?thesis by (simp add: after_token_def)
qed

lemma token_comment_local:
  assumes "token_comment (A @ X) = B @ X" and "letter_start X" and "letter_start Y"
  shows "token_comment (A @ Y) = B @ Y"
proof -
  have "suffix (B @ X) (comment (A @ X))"
    using assms(1) after_token_suffix[of "comment (A @ X)"] by (simp add: token_comment_def)
  from between[OF comment_suffix this] obtain C where C: "comment (A @ X) = C @ X" by blast
  then have "comment (A @ Y) = C @ Y" using comment_local assms(2,3) by blast
  moreover have "after_token (C @ Y) = B @ Y"
    using after_token_local[OF _ assms(2,3)] assms(1) C by (simp add: token_comment_def)
  ultimately show ?thesis by (simp add: token_comment_def)
qed

lemma word_suffix: "word str s = Some (v, r) \<Longrightarrow> suffix r s"
  unfolding word_def Let_def
  by (auto split: if_splits intro: suffix_order.trans[OF after_token_suffix]
      suffix_order.trans[OF suffix_drop] token_comment_suffix)

lemma drop_inside:
  assumes "suffix (B @ X) (drop n (C @ X))" and "X \<noteq> []"
  shows "drop n (C @ X) = drop n C @ X \<and> n \<le> length C"
proof -
  have "length (B @ X) \<le> length (drop n (C @ X))" using assms(1) by (rule suffix_length_le)
  then have "n \<le> length C" using assms(2) by (cases X) auto
  then show ?thesis by simp
qed

lemma word_local:
  assumes "word str (A @ X) = Some (v, B @ X)" and "letter_start X" and "letter_start Y"
  shows "word str (A @ Y) = Some (v, B @ Y)"
proof -
  let ?T = "token_comment (A @ X)"
  from assms(1) have p: "prefix str ?T" and v: "v = str"
    and r: "after_token (drop (length str) ?T) = B @ X"
    by (auto simp: word_def Let_def split: if_splits)
  have "suffix (B @ X) ?T"
    using r after_token_suffix[of "drop (length str) ?T"] suffix_drop suffix_order.trans
    by metis
  from between[OF token_comment_suffix this] obtain C where C: "?T = C @ X" by blast
  have TY: "token_comment (A @ Y) = C @ Y" using token_comment_local[OF C assms(2,3)] .
  have "suffix (B @ X) (drop (length str) (C @ X))"
    using r after_token_suffix[of "drop (length str) ?T"] C by simp
  moreover have "X \<noteq> []" using assms(2) by (auto simp: letter_start_def)
  ultimately have d: "drop (length str) (C @ X) = drop (length str) C @ X"
    and n: "length str \<le> length C" using drop_inside by blast+
  have pc: "prefix str C" using p C n by (auto simp: prefix_append dest: prefix_length_le)
  have "after_token (drop (length str) C @ Y) = B @ Y"
    using after_token_local[OF _ assms(2,3)] r C d by simp
  then show ?thesis using TY pc n v by (simp add: word_def)
qed

text \<open>A word without the letter \<open>j\<close> cannot be matched across a text that holds one.\<close>

lemma word_fail_local:
  assumes "word str (A @ X) = None" and "token_comment (A @ X) = C @ X"
    and "CHR ''j'' \<in> set C" and "CHR ''j'' \<notin> set str"
    and "letter_start X" and "letter_start Y"
  shows "word str (A @ Y) = None"
proof -
  have TY: "token_comment (A @ Y) = C @ Y" using token_comment_local[OF assms(2,5,6)] .
  have np: "\<not> prefix str (C @ X)"
    using assms(1,2) by (simp add: word_def Let_def split: if_splits)
  have "\<not> prefix str (C @ Y)"
  proof
    assume "prefix str (C @ Y)"
    then consider "prefix str C" | us where "str = C @ us" by (auto simp: prefix_append)
    then show False
    proof cases
      case 1
      then show False using np by (simp add: prefix_append)
    next
      case 2
      then show False using assms(3,4) by simp
    qed
  qed
  then show ?thesis using TY by (simp add: word_def)
qed

lemma text_p_suffix: "text_p s = Some (v, r) \<Longrightarrow> suffix r s"
  unfolding text_p_def
  by (auto intro: suffix_order.trans[OF after_token_suffix] suffix_dropWhile)

lemma text_p_local:
  assumes "text_p (A @ X) = Some (v, B @ X)" and "letter_start X" and "letter_start Y"
  shows "text_p (A @ Y) = Some (v, B @ Y)"
proof -
  let ?D = "dropWhile is_ident (A @ X)"
  from assms(1) have r: "after_token ?D = B @ X"
    and v: "v = interpretEscapes (takeWhile is_ident (A @ X))" by (auto simp: text_p_def)
  have "suffix (B @ X) ?D" using r after_token_suffix[of ?D] by simp
  from between[OF suffix_dropWhile this] obtain C where C: "?D = C @ X" by blast
  have "is_ident (hd X)" "X \<noteq> []"
    using assms(2) by (auto simp: letter_start_def is_ident_def split: list.splits)
  have "C \<noteq> []"
  proof
    assume "C = []"
    with C have e: "dropWhile is_ident (A @ X) = X" by simp
    then have "\<not> is_ident (hd X)" using \<open>X \<noteq> []\<close> hd_dropWhile[of is_ident "A @ X"] by simp
    then show False using \<open>is_ident (hd X)\<close> by simp
  qed
  then have "dropWhile is_ident (A @ Y) = C @ Y \<and> takeWhile is_ident (A @ Y) = takeWhile is_ident (A @ X)"
    using dropWhile_local[of is_ident A X C Y] C by simp
  moreover have "after_token (C @ Y) = B @ Y"
    using after_token_local[OF _ assms(2,3)] r C by simp
  ultimately show ?thesis using v by (simp add: text_p_def)
qed


lemma alt_local:
  assumes "alt p q (A @ X) = Some (v, B @ X)"
    and "\<And>v. p (A @ X) = Some (v, B @ X) \<Longrightarrow> p (A @ Y) = Some (v, B @ Y)"
    and "p (A @ X) = None \<Longrightarrow> p (A @ Y) = None"
    and "\<And>v. q (A @ X) = Some (v, B @ X) \<Longrightarrow> q (A @ Y) = Some (v, B @ Y)"
  shows "alt p q (A @ Y) = Some (v, B @ Y)"
  using assms by (cases "p (A @ X)") (auto simp: alt_def)

lemma alt_suffix:
  assumes "alt p q s = Some (v, r)"
    and "\<And>v r. p s = Some (v, r) \<Longrightarrow> P r" and "\<And>v r. q s = Some (v, r) \<Longrightarrow> P r"
  shows "P r"
  using assms by (auto simp: alt_def split: option.splits)

lemma word_after_token:
  "word str s = Some (v, r) \<Longrightarrow> suffix r (token_comment s)"
  unfolding word_def Let_def
  by (auto split: if_splits intro: suffix_order.trans[OF after_token_suffix] suffix_drop)

lemma databaseName_suffix: "databaseName s = Some (v, r) \<Longrightarrow> suffix r (token_comment s)"
  unfolding databaseName_def by (elim alt_suffix) (auto dest: word_after_token)

lemma databaseName_local:
  assumes "databaseName (A @ X) = Some (n, B @ X)" and "CHR ''j'' \<in> set B"
    and "letter_start X" and "letter_start Y"
  shows "databaseName (A @ Y) = Some (n, B @ Y)"
proof -
  from between[OF token_comment_suffix databaseName_suffix[OF assms(1)]]
  obtain C where C: "token_comment (A @ X) = C @ X" and "suffix B C" by blast
  then have j: "CHR ''j'' \<in> set C" using assms(2) by (auto simp: suffix_def)
  have ok: "word str (A @ X) = Some (v, B @ X) \<Longrightarrow> word str (A @ Y) = Some (v, B @ Y)" for str v
    using word_local[OF _ assms(3,4)] .
  have fail: "word str (A @ X) = None \<Longrightarrow> CHR ''j'' \<notin> set str \<Longrightarrow> word str (A @ Y) = None" for str
    using word_fail_local[OF _ C j _ assms(3,4)] .
  have nj: "CHR ''j'' \<notin> set ''tile38''" "CHR ''j'' \<notin> set ''metabase''" "CHR ''j'' \<notin> set ''url''"
    "CHR ''j'' \<notin> set ''t''" "CHR ''j'' \<notin> set ''m''" by simp_all
  show ?thesis
    using assms(1) unfolding databaseName_def
    apply (rule alt_local[where X = X])
      apply (erule ok)
     apply (erule fail, rule nj)
    apply (erule alt_local[where X = X])
      apply (erule ok)
     apply (erule fail, rule nj)
    apply (erule alt_local[where X = X])
      apply (erule ok)
     apply (erule fail, rule nj)
    apply (erule alt_local[where X = X])
      apply (erule ok)
     apply (erule fail, rule nj)
    apply (erule alt_local[where X = X])
      apply (erule ok)
     apply (erule fail, rule nj)
    apply (erule ok)
    done
qed

lemma asAlias_suffix: "asAlias s = (a, r) \<Longrightarrow> suffix r s"
  unfolding asAlias_def opt_def sep_then_def
  by (auto split: option.splits dest!: word_suffix text_p_suffix intro: suffix_order.trans)

lemma asAlias_local:
  assumes "asAlias (A @ X) = (al, B @ X)" and "token_comment (B @ X) = C @ X"
    and "CHR ''j'' \<in> set C" and "letter_start X" and "letter_start Y"
  shows "asAlias (A @ Y) = (al, B @ Y)"
proof (cases "word ''as'' (A @ X)")
  case None
  then have "B = A" "al = None"
    using assms(1) by (auto simp: asAlias_def opt_def sep_then_def)
  moreover have "word ''as'' (A @ Y) = None"
    using word_fail_local[OF None _ assms(3) _ assms(4,5)] assms(2) \<open>B = A\<close> by simp
  ultimately show ?thesis by (simp add: asAlias_def opt_def sep_then_def)
next
  case (Some a)
  obtain x r1 where a: "a = (x, r1)" by (cases a)
  from assms(1) Some a obtain v where t: "text_p r1 = Some (v, B @ X)" and al: "al = Some v"
    by (auto simp: asAlias_def opt_def sep_then_def text_p_def)
  from between[OF word_suffix[OF Some[unfolded a]] text_p_suffix[OF t]]
  obtain A1 where A1: "r1 = A1 @ X" by blast
  have "word ''as'' (A @ Y) = Some (x, A1 @ Y)"
    using word_local[OF _ assms(4,5)] Some a A1 by simp
  moreover have "text_p (A1 @ Y) = Some (v, B @ Y)"
    using text_p_local[OF _ assms(4,5)] t A1 by simp
  ultimately show ?thesis using al by (simp add: asAlias_def opt_def sep_then_def)
qed

lemma databaseName_suffix': "databaseName s = Some (v, r) \<Longrightarrow> suffix r s"
  using databaseName_suffix token_comment_suffix suffix_order.trans by blast

lemma database_p_suffix: "database_p s = Some (db, r) \<Longrightarrow> suffix r s"
  unfolding database_p_def
  by (auto split: option.splits prod.splits dest!: databaseName_suffix' asAlias_suffix
      intro: suffix_order.trans)

lemma database_p_local:
  assumes "database_p (A @ X) = Some (db, B @ X)" and "token_comment (B @ X) = C @ X"
    and "CHR ''j'' \<in> set C" and "letter_start X" and "letter_start Y"
  shows "database_p (A @ Y) = Some (db, B @ Y)"
proof -
  from assms(1) obtain n r1 a where n: "databaseName (A @ X) = Some (n, r1)"
    and a: "asAlias r1 = (a, B @ X)" and db: "db = \<lparr>name = n, dalias = a\<rparr>"
    by (auto simp: database_p_def split: option.splits prod.splits)
  from between[OF databaseName_suffix'[OF n] asAlias_suffix[OF a]]
  obtain A1 where A1: "r1 = A1 @ X" and s: "suffix B A1" by blast
  have "suffix (C @ X) (B @ X)" using token_comment_suffix[of "B @ X"] assms(2) by simp
  then have "suffix C B" by simp
  then have "CHR ''j'' \<in> set A1" using s assms(3) by (auto simp: suffix_def)
  then have "databaseName (A @ Y) = Some (n, A1 @ Y)"
    using databaseName_local[OF _ _ assms(4,5)] n A1 by simp
  moreover have "asAlias (A1 @ Y) = (a, B @ Y)"
    using asAlias_local[OF _ assms(2,3,4,5)] a A1 by simp
  ultimately show ?thesis using db by (simp add: database_p_def)
qed

lemma select_from_local:
  assumes "select_from (A @ X) = Some (h, B @ X)" and "token_comment (B @ X) = C @ X"
    and "CHR ''j'' \<in> set C" and "letter_start X" and "letter_start Y"
  shows "select_from (A @ Y) = Some (h, B @ Y)"
proof -
  from assms(1) obtain cmd r1 x r2 y r3 db where
    1: "word ''select'' (whitespace (A @ X)) = Some (cmd, r1)"
    and 2: "word ''*'' r1 = Some (x, r2)" and 3: "word ''from'' r2 = Some (y, r3)"
    and 4: "database_p r3 = Some (db, B @ X)" and h: "h = (cmd, db)"
    by (auto simp: select_from_def split: option.splits)
  have u0: "suffix (whitespace (A @ X)) (A @ X)" by (rule whitespace_suffix)
  have u1: "suffix r1 (A @ X)" using word_suffix[OF 1] u0 suffix_order.trans by blast
  have u2: "suffix r2 (A @ X)" using word_suffix[OF 2] u1 suffix_order.trans by blast
  have u3: "suffix r3 (A @ X)" using word_suffix[OF 3] u2 suffix_order.trans by blast
  have d3: "suffix (B @ X) r3" by (rule database_p_suffix[OF 4])
  have d2: "suffix (B @ X) r2" using word_suffix[OF 3] d3 suffix_order.trans by blast
  have d1: "suffix (B @ X) r1" using word_suffix[OF 2] d2 suffix_order.trans by blast
  have d0: "suffix (B @ X) (whitespace (A @ X))" using word_suffix[OF 1] d1 suffix_order.trans by blast
  from between[OF u3 d3] obtain A3 where A3: "r3 = A3 @ X" by blast
  from between[OF u2 d2] obtain A2 where A2: "r2 = A2 @ X" by blast
  from between[OF u1 d1] obtain A1 where A1: "r1 = A1 @ X" by blast
  from between[OF u0 d0] obtain A0 where A0: "whitespace (A @ X) = A0 @ X" by blast
  have "whitespace (A @ Y) = A0 @ Y" using whitespace_local[OF A0 assms(4,5)] .
  moreover have "word ''select'' (A0 @ Y) = Some (cmd, A1 @ Y)"
    using word_local[OF _ assms(4,5)] 1 A0 A1 by simp
  moreover have "word ''*'' (A1 @ Y) = Some (x, A2 @ Y)"
    using word_local[OF _ assms(4,5)] 2 A1 A2 by simp
  moreover have "word ''from'' (A2 @ Y) = Some (y, A3 @ Y)"
    using word_local[OF _ assms(4,5)] 3 A2 A3 by simp
  moreover have "database_p (A3 @ Y) = Some (db, B @ Y)"
    using database_p_local[OF _ assms(2,3,4,5)] 4 A3 by simp
  ultimately show ?thesis using h by (simp add: select_from_def)
qed


lemma select_p_from:
  "select_p s =
     (case select_from s of
        None \<Rightarrow> None
      | Some ((cmd, db), r4) \<Rightarrow>
          (case opt join_p r4 of
             (j, r5) \<Rightarrow>
               (case opt where_p r5 of
                  (w, r6) \<Rightarrow>
                    (case opt limit_p r6 of
                       (l, r7) \<Rightarrow>
                         Some (\<lparr>command = cmd, database = db, join = j, wheres = w, limit = l\<rparr>,
                               token_comment r7)))))"
  by (simp add: select_p_def select_from_def split: option.splits prod.splits)

lemma name_letter_start: "N \<in> set database_names \<Longrightarrow> letter_start (N @ R)"
  by (auto simp: database_names_def letter_start_def)

lemma skip_solid:
  assumes "\<not> is_space c" and "c \<noteq> CHR ''-''"
  shows "token_comment (after_token (c # r)) = c # r"
proof -
  have w: "whitespace (c # r) = c # r" using assms(1) by (simp add: whitespace_def)
  have c: "comment (c # r) = c # r" using assms(2) by (cases r) auto
  show ?thesis by (simp add: token_comment_def after_token_def w c)
qed

lemma on_follows:
  assumes "word ''on'' (after_token R) = Some (y, r)"
  shows "\<not> prefix (CHR ''i'' # u) R \<and> \<not> prefix (CHR ''e'' # u) R \<and> \<not> prefix (CHR ''r'' # u) R"
proof (cases R)
  case Nil
  then show ?thesis by simp
next
  case (Cons c R')
  have p: "prefix ''on'' (token_comment (after_token (c # R')))"
    using assms Cons by (auto simp: word_def Let_def split: if_splits)
  have "c \<noteq> CHR ''i'' \<and> c \<noteq> CHR ''e'' \<and> c \<noteq> CHR ''r''"
  proof (rule ccontr)
    assume "\<not> ?thesis"
    then have c: "c = CHR ''i'' \<or> c = CHR ''e'' \<or> c = CHR ''r''" by blast
    then have "token_comment (after_token (c # R')) = c # R'"
      by (intro skip_solid) (auto simp: is_space_def)
    with p c show False by auto
  qed
  then show ?thesis using Cons by auto
qed

lemma databaseName_at:
  assumes "N \<in> set database_names" and "token_comment s = N @ R"
    and "\<And>u. \<not> prefix (CHR ''i'' # u) R \<and> \<not> prefix (CHR ''e'' # u) R \<and> \<not> prefix (CHR ''r'' # u) R"
  shows "databaseName s = Some (N, after_token R)"
  using assms(1) assms(3)
  by (auto simp: database_names_def databaseName_def alt_def word_def assms(2))


lemma fetch_p_Fetch: "fetch_p s = Some (st, r) \<Longrightarrow> \<exists>db ps. st = Fetch db ps"
  by (auto simp: fetch_p_def split: option.splits)

lemma create_p_Create: "create_p s = Some (st, r) \<Longrightarrow> \<exists>a b c. st = Create a b c"
  by (auto simp: create_p_def split: option.splits prod.splits)

lemma getConfig_GetConfig: "getConfig s = Some (st, r) \<Longrightarrow> \<exists>ps. st = GetConfig ps"
  by (auto simp: getConfig_def split: option.splits)

lemma updateConfig_UpdateConfig: "updateConfig s = Some (st, r) \<Longrightarrow> st = UpdateConfig"
  by (auto simp: updateConfig_def split: option.splits)

lemma parser_Select:
  assumes "parser s = Some (Select ast, r)"
  shows "fetch_p s = None \<and> select_p s = Some (ast, r)"
  using assms unfolding parser_def alt_def map_p_def
  by (auto split: option.splits dest: fetch_p_Fetch create_p_Create getConfig_GetConfig
      updateConfig_UpdateConfig)

lemma select_not_fetch:
  assumes "select_from s = Some (h, r)"
  shows "fetch_p s = None"
proof -
  from assms obtain cmd r1 where "word ''select'' (whitespace s) = Some (cmd, r1)"
    by (auto simp: select_from_def split: option.splits)
  then have "prefix ''select'' (token_comment (whitespace s))"
    by (auto simp: word_def Let_def split: if_splits)
  then have "\<not> prefix ''fetch'' (token_comment (whitespace s))"
    by (cases "token_comment (whitespace s)") auto
  then show ?thesis by (simp add: fetch_p_def word_def)
qed

lemma select_from_suffix:
  assumes "select_from s = Some (h, r)"
  shows "suffix r s"
proof -
  from assms obtain cmd r1 x r2 y r3 db where
    1: "word ''select'' (whitespace s) = Some (cmd, r1)"
    and 2: "word ''*'' r1 = Some (x, r2)" and 3: "word ''from'' r2 = Some (y, r3)"
    and 4: "database_p r3 = Some (db, r)"
    by (auto simp: select_from_def split: option.splits)
  have "suffix r1 s" using word_suffix[OF 1] whitespace_suffix suffix_order.trans by blast
  then have "suffix r2 s" using word_suffix[OF 2] suffix_order.trans by blast
  then have "suffix r3 s" using word_suffix[OF 3] suffix_order.trans by blast
  then show ?thesis using database_p_suffix[OF 4] suffix_order.trans by blast
qed

text \<open>
  Claim C9.  In a valid select statement with a join, the database name between \<open>join\<close>
  and \<open>on\<close> can be replaced by any other known database name: the statement still parses,
  and to the same tree.  Only the two keys of the join condition reach the tree.
\<close>

theorem join_database_name_discarded:
  assumes "N \<in> set database_names" and "N' \<in> set database_names"
    and "join_name_at A N R"
    and "tryParse (A @ N @ R) = Inr (Select ast)" and "join ast \<noteq> None"
  shows "tryParse (A @ N' @ R) = Inr (Select ast)"
proof -
  let ?X = "N @ R" and ?Y = "N' @ R"
  have lx: "letter_start ?X" and ly: "letter_start ?Y"
    using assms(1,2) by (simp_all add: name_letter_start)
  from assms(3) obtain h r4 x r1 where
    sf: "select_from (A @ ?X) = Some (h, r4)" and wj: "word ''join'' r4 = Some (x, r1)"
    and tc: "token_comment r1 = ?X" and dn: "databaseName r1 = Some (N, after_token R)"
    by (auto simp: join_name_at_def split: option.splits)
  obtain cmd db where h: "h = (cmd, db)" by (cases h)
  \<comment> \<open>the rests of the first parse end in the text that starts at the name\<close>
  have u4: "suffix r4 (A @ ?X)" using sf by (rule select_from_suffix)
  have u1: "suffix r1 (A @ ?X)" using word_suffix[OF wj] u4 suffix_order.trans by blast
  have d1: "suffix ([] @ ?X) r1" using token_comment_suffix[of r1] tc by simp
  have d4: "suffix ([] @ ?X) r4" using word_suffix[OF wj] d1 suffix_order.trans by blast
  from between[OF u1 d1] obtain W where W: "r1 = W @ ?X" by blast
  from between[OF u4 d4] obtain J where J: "r4 = J @ ?X" by blast
  \<comment> \<open>the word \<open>join\<close> lies before the name\<close>
  have pj: "prefix ''join'' (token_comment (J @ ?X))"
    and aj: "after_token (drop (length ''join'') (token_comment (J @ ?X))) = W @ ?X"
    using wj J W by (auto simp: word_def Let_def split: if_splits)
  have "suffix (W @ ?X) (token_comment (J @ ?X))"
    using word_after_token[OF wj] J W by simp
  from between[OF token_comment_suffix this] obtain C where C: "token_comment (J @ ?X) = C @ ?X"
    by blast
  have "suffix (W @ ?X) (drop (length ''join'') (C @ ?X))"
    using aj C after_token_suffix[of "drop (length ''join'') (C @ ?X)"] by simp
  moreover have "?X \<noteq> []" using lx by (auto simp: letter_start_def)
  ultimately have "length ''join'' \<le> length C" using drop_inside by blast
  then have "prefix ''join'' C"
    using pj C prefix_length_prefix[of "''join''" "C @ ?X" C] by simp
  then have j: "CHR ''j'' \<in> set C" by (auto simp: prefix_def)
  \<comment> \<open>the second text is parsed alike up to the name\<close>
  have sf': "select_from (A @ ?Y) = Some (h, J @ ?Y)"
    using select_from_local[OF _ C j lx ly] sf J by simp
  have wj': "word ''join'' (J @ ?Y) = Some (x, W @ ?Y)"
    using word_local[OF _ lx ly] wj J W by simp
  have tc': "token_comment (W @ ?Y) = ?Y"
    using token_comment_local[of W ?X "[]" ?Y, OF _ lx ly] tc W by simp
  \<comment> \<open>the first parse has a join, so \<open>on\<close> follows the name\<close>
  from assms(4) have ps: "parser (A @ ?X) = Some (Select ast, [])"
    by (auto simp: tryParse_def split: option.splits if_splits)
  then have sp: "select_p (A @ ?X) = Some (ast, [])" using parser_Select by blast
  define K where "K = (case word ''on'' (after_token R) of None \<Rightarrow> None | Some (y, r3) \<Rightarrow> joinCondition r3)"
  have jx: "join_p (J @ ?X) = K"
    using wj dn J by (simp add: join_p_def K_def)
  have "K \<noteq> None"
    using sp assms(5) sf J h jx
    by (auto simp: select_p_from opt_def split: option.splits prod.splits)
  then obtain y r3 where on: "word ''on'' (after_token R) = Some (y, r3)"
    by (auto simp: K_def split: option.splits)
  have dn': "databaseName (W @ ?Y) = Some (N', after_token R)"
    using databaseName_at[OF assms(2) tc'] on_follows[OF on] by blast
  have jy: "join_p (J @ ?Y) = K"
    using wj' dn' by (simp add: join_p_def K_def)
  obtain jc r5 where K: "K = Some (jc, r5)" using \<open>K \<noteq> None\<close> by (cases K) auto
  have "select_p (A @ ?Y) = select_p (A @ ?X)"
    using sf sf' J jx jy K by (simp add: select_p_from opt_def)
  moreover have "fetch_p (A @ ?Y) = None" using select_not_fetch[OF sf'] .
  ultimately have "parser (A @ ?Y) = Some (Select ast, [])"
    using sp by (simp add: parser_def alt_def map_p_def)
  then show ?thesis by (simp add: tryParse_def)
qed


theorem join_database_name_discarded_witness:
  "tryParse (''select * from m join '' @ ''tile38'' @ '' on t.id = m.order_id'')
     = Inr (Select join_select)"
proof -
  have 1: "''t'' \<in> set database_names" and 2: "''tile38'' \<in> set database_names"
    by (simp_all add: database_names_def)
  have 3: "join_name_at ''select * from m join '' ''t'' '' on t.id = m.order_id''"
    by (simp add: join_name_at_def select_from_def lex_ev stmt_ev alt_def sep_then_def)
  have 4: "tryParse (''select * from m join '' @ ''t'' @ '' on t.id = m.order_id'')
             = Inr (Select join_select)"
    by (simp add: lex_ev val_ev stmt_ev join_select_def)
  have 5: "join join_select \<noteq> None" by (simp add: join_select_def)
  show ?thesis by (rule join_database_name_discarded[OF 1 2 3 4 5])
qed

subsection \<open>Array brackets\<close>

lemma array_literal_example:
  "value_p ''['a','b']'' = Some (VArr [VStr ''a'', VStr ''b''], [])
   \<and> value_p ''('a','b')'' = Some (VArr [VStr ''a'', VStr ''b''], [])"
  by (simp add: lex_ev val_ev)

text \<open>
  Claim C6.  The two bracket pairs are not interchangeable on every element sequence.  After
  a first comment line, \<open>text\<close> reads the comment \<open>--g (1,\<close> as the name \<open>--g\<close> and the opening of
  a function call, which only a closing parenthesis ends.  Written with square brackets the
  sequence parses to the one constant; written with parentheses the call swallows the
  closing parenthesis and the statement is rejected.
\<close>

theorem brackets_differ_after_comments:
  "value_p (''['' @ commented_elements @ '']'') = Some (VArr [VStr ''current_bounds''], [])
   \<and> value_p (''('' @ commented_elements @ '')'') = None
   \<and> tryParse (''select * from t where k in ['' @ commented_elements @ '']'')
     = Inr (Select \<lparr>command = ''select'', database = \<lparr>name = ''t'', dalias = None\<rparr>, join = None,
              wheres = Some [\<lparr>left = \<lparr>kalias = None, key = ''k''\<rparr>, operator = ''in'',
                              right = VArr [VStr ''current_bounds'']\<rparr>],
              limit = None\<rparr>)
   \<and> tryParse (''select * from t where k in ('' @ commented_elements @ '')'') = Inl ParseError"
  by (simp add: commented_elements_def lex_ev val_ev stmt_ev)

end
